theory Spec2Isabelle
  imports Main "HOL-Library.Word"
begin

text \<open>
  A shallow embedding of the encoding pipeline of the label generator: the description
  wrapper \<open>splitDescription\<close> and the sanitizer \<open>sanitizeString\<close>, the table parser
  inside \<open>handleProcessData\<close> in its strict and its lenient variant, the manual-entry
  dialog and the quantity editor, and the \<open>blocks\<close> arrays of the three printer-document
  encoders \<open>handleDownloadTxt\<close>. Definitions come first, each next to a note on the source
  lines it follows; the properties follow, one section per component.
\<close>

section \<open>Strings of UTF-16 code units\<close>

text \<open>
  The program is TypeScript: a string is a sequence of 16-bit code units, and
  \<^verbatim>\<open>length\<close>, \<^verbatim>\<open>substring\<close>, \<^verbatim>\<open>lastIndexOf\<close> and the regular expression of
  \<^verbatim>\<open>sanitizeString\<close> all count and compare code units. A string is therefore a list
  of 16-bit words; \<open>ascii\<close> embeds an ASCII literal.
\<close>

type_synonym jsstring = "16 word list"

definition ascii :: "string \<Rightarrow> jsstring" where
  "ascii s = map of_char s"

definition SPACE :: "16 word" where "SPACE = 0x20"
definition TAB :: "16 word" where "TAB = 0x09"
definition NEWLINE :: "16 word" where "NEWLINE = 0x0A"

text \<open>
  The characters \<^verbatim>\<open>String.prototype.trim\<close> removes: the ECMAScript WhiteSpace and
  LineTerminator code points (tab, LF, VT, FF, CR, space, NBSP, U+1680, U+2000 to U+200A,
  U+2028, U+2029, U+202F, U+205F, U+3000 and the byte-order mark U+FEFF).
\<close>

definition isWhiteSpace :: "16 word \<Rightarrow> bool" where
  "isWhiteSpace c \<longleftrightarrow>
     c = 0x09 \<or> c = 0x0A \<or> c = 0x0B \<or> c = 0x0C \<or> c = 0x0D \<or> c = 0x20 \<or> c = 0xA0 \<or>
     c = 0x1680 \<or> (0x2000 \<le> c \<and> c \<le> 0x200A) \<or> c = 0x2028 \<or> c = 0x2029 \<or>
     c = 0x202F \<or> c = 0x205F \<or> c = 0x3000 \<or> c = 0xFEFF"

definition trimStart :: "jsstring \<Rightarrow> jsstring" where
  "trimStart s = dropWhile isWhiteSpace s"

definition trimEnd :: "jsstring \<Rightarrow> jsstring" where
  "trimEnd s = rev (dropWhile isWhiteSpace (rev s))"

definition trim :: "jsstring \<Rightarrow> jsstring" where
  "trim s = trimEnd (trimStart s)"

text \<open>\<^verbatim>\<open>s.substring(start, end)\<close> and \<^verbatim>\<open>s.substring(start)\<close> on non-negative indices:
  both are clamped to the length, and the two-argument form swaps them when out of order.\<close>

definition substring :: "jsstring \<Rightarrow> nat \<Rightarrow> nat \<Rightarrow> jsstring" where
  "substring s start end =
     (let a = min start (length s); b = min end (length s)
      in take (max a b - min a b) (drop (min a b) s))"

definition substringFrom :: "jsstring \<Rightarrow> nat \<Rightarrow> jsstring" where
  "substringFrom s start = drop (min start (length s)) s"

text \<open>
  \<^verbatim>\<open>s.lastIndexOf(c, position)\<close> for a one-character search string: the greatest index
  \<open>k \<le> min position (length s - 1)\<close> with \<open>s[k] = c\<close>, and \<open>-1\<close> when there is none.
\<close>

fun lastIndexFrom :: "jsstring \<Rightarrow> 16 word \<Rightarrow> nat \<Rightarrow> int" where
  "lastIndexFrom s c 0 = (if s \<noteq> [] \<and> s ! 0 = c then 0 else -1)"
| "lastIndexFrom s c (Suc k) =
     (if Suc k < length s \<and> s ! Suc k = c then int (Suc k) else lastIndexFrom s c k)"

definition lastIndexOf :: "jsstring \<Rightarrow> 16 word \<Rightarrow> nat \<Rightarrow> int" where
  "lastIndexOf s c position =
     (if s = [] then -1 else lastIndexFrom s c (min position (length s - 1)))"

section \<open>sanitizeString and splitDescription (App.tsx)\<close>

text \<open>
  \<^verbatim>\<open>input.replace(re, "")\<close> where the global regular expression \<open>re\<close> is the character
  class of U+200B to U+200D and U+FEFF (zero-width space, non-joiner, joiner, byte-order
  mark); a falsy (empty) input gives the empty string.
\<close>

definition isInvisible :: "16 word \<Rightarrow> bool" where
  "isInvisible c \<longleftrightarrow> (0x200B \<le> c \<and> c \<le> 0x200D) \<or> c = 0xFEFF"

definition sanitizeString :: "jsstring \<Rightarrow> jsstring" where
  "sanitizeString input = (if input = [] then [] else filter (\<lambda>c. \<not> isInvisible c) input)"

text \<open>
  \<^verbatim>\<open>splitDescription(description, maxLength = 25)\<close>. The length bound is a natural
  number; \<open>splitPos\<close> is an integer because \<^verbatim>\<open>lastIndexOf\<close> answers \<open>-1\<close>.
\<close>

definition splitDescription :: "jsstring \<Rightarrow> nat \<Rightarrow> jsstring \<times> jsstring" where
  "splitDescription description maxLength =
     (let trimmedDesc = trim description in
      if length trimmedDesc \<le> maxLength then (trimmedDesc, [])
      else
        let found = lastIndexOf trimmedDesc SPACE maxLength;
            splitPos = (if found \<le> 0 then int maxLength else found);
            line1 = trim (substring trimmedDesc 0 (nat splitPos));
            line2 = trim (substringFrom trimmedDesc (nat splitPos))
        in (line1, line2))"

definition defaultMaxLength :: nat where
  "defaultMaxLength = 25"

section \<open>The wrapping rule in the words of the specification\<close>

text \<open>
  \<open>lastSpaceAt t m p\<close>: index \<open>p\<close> holds the last space of \<open>t\<close> at or before index \<open>m\<close>.
\<close>

definition lastSpaceAt :: "jsstring \<Rightarrow> nat \<Rightarrow> nat \<Rightarrow> bool" where
  "lastSpaceAt t m p \<longleftrightarrow>
     p \<le> m \<and> p < length t \<and> t ! p = SPACE \<and> (\<forall>j \<in> set [Suc p..<Suc m]. t ! j \<noteq> SPACE)"

text \<open>
  The reconstruction property as the specification words it: the two lines, put together
  again with at most the one separating space between them, give back the text.
\<close>

definition reconstructsModuloSpace :: "jsstring \<Rightarrow> jsstring \<times> jsstring \<Rightarrow> bool" where
  "reconstructsModuloSpace t lines \<longleftrightarrow>
     t = fst lines @ snd lines \<or> t = fst lines @ [SPACE] @ snd lines"

text \<open>Sample descriptions.\<close>

definition shortDescription :: jsstring where
  "shortDescription = ascii '' Alambre 17/15  ''"
definition bovinosDescription :: jsstring where
  "bovinosDescription = ascii ''Sacos de alimento balanceado premium para bovinos''"
definition unbrokenDescription :: jsstring where
  "unbrokenDescription = ascii ''ABCDEFGHIJKLMNOPQRSTUVWXYZ0123456789''"

definition doubleSpaceDescription :: jsstring where
  "doubleSpaceDescription = ascii ''ALAMBRE GALVANIZADO  17/15 ROLLO 1000 MTS''"

section \<open>Numbers and strings\<close>

text \<open>
  A JavaScript number is a double. Every integer of magnitude up to \<open>2^53\<close> is a double;
  an integer result beyond that is rounded to the nearest double, the tie going to the
  even significand. \<open>roundDouble\<close> is that rounding on the integers, and \<open>jsMinus\<close> the
  subtraction \<^verbatim>\<open>a - b\<close> of two integer-valued numbers. (Magnitudes from about
  \<open>1.8 * 10^308\<close> on, which round to \<open>Infinity\<close>, are outside this model.)
\<close>

function bitLength :: "int \<Rightarrow> nat" where
  "bitLength n = (if n \<le> 0 then 0 else Suc (bitLength (n div 2)))"
  by pat_completeness auto
termination
  by (relation "measure nat") auto

declare bitLength.simps [simp del]

definition roundDouble :: "int \<Rightarrow> int" where
  "roundDouble i =
     (if \<bar>i\<bar> < 2 ^ 53 then i
      else
        let e = bitLength \<bar>i\<bar> - 53; q = \<bar>i\<bar> div 2 ^ e; r = \<bar>i\<bar> mod 2 ^ e; h = 2 ^ (e - 1)
        in sgn i * (if r > h \<or> (r = h \<and> odd q) then (q + 1) * 2 ^ e else q * 2 ^ e))"

definition jsMinus :: "int \<Rightarrow> int \<Rightarrow> int" where
  "jsMinus a b = roundDouble (a - b)"

text \<open>
  \<^verbatim>\<open>parseInt(str, 10)\<close>: leading white space is skipped, one sign is read, then the
  longest run of decimal digits; no digit at all gives \<open>NaN\<close>, here \<open>None\<close>. Anything
  after the digits is ignored. The integer read is rounded to a double.
\<close>

definition isDigit :: "16 word \<Rightarrow> bool" where
  "isDigit c \<longleftrightarrow> 0x30 \<le> c \<and> c \<le> 0x39"

definition digitsValue :: "jsstring \<Rightarrow> int" where
  "digitsValue ds = foldl (\<lambda>acc c. 10 * acc + (uint c - 48)) 0 ds"

definition parseInt :: "jsstring \<Rightarrow> int option" where
  "parseInt str =
     (let s = trimStart str;
          sign = (case s of c # _ \<Rightarrow> if c = 0x2D then - 1 else 1 | [] \<Rightarrow> (1::int));
          body = (case s of c # cs \<Rightarrow> if c = 0x2D \<or> c = 0x2B then cs else s | [] \<Rightarrow> []);
          z = takeWhile isDigit body
      in if z = [] then None else Some (sign * roundDouble (digitsValue z)))"

text \<open>
  A number inside a template string. An integer of magnitude up to \<open>2^53\<close> prints as its
  decimal digits, with a minus sign when negative. A larger number prints in the shortest
  form that reads back as the same double, or with an exponent: that form is not
  modelled, and \<open>showNumber\<close> answers \<open>None\<close> there.
\<close>

function decimal :: "int \<Rightarrow> jsstring" where
  "decimal n = (if n < 10 then [word_of_int (48 + n)]
                else decimal (n div 10) @ [word_of_int (48 + n mod 10)])"
  by pat_completeness auto
termination
  by (relation "measure nat") auto

declare decimal.simps [simp del]

definition showNumber :: "int \<Rightarrow> jsstring option" where
  "showNumber i =
     (if \<bar>i\<bar> \<le> 2 ^ 53 then Some (if i < 0 then 0x2D # decimal (- i) else decimal i)
      else None)"

text \<open>
  The clock reading and the row index inside a record identifier: natural numbers far
  below \<open>2^53\<close>, printed in decimal.
\<close>

fun showNat :: "nat \<Rightarrow> jsstring" where
  "showNat n = (if n < 10 then [of_nat (48 + n)] else showNat (n div 10) @ [of_nat (48 + n mod 10)])"

declare showNat.simps [simp del]

text \<open>\<^verbatim>\<open>s.split(sep)\<close> for a one-character separator: never an empty array.\<close>

fun splitOn :: "16 word \<Rightarrow> jsstring \<Rightarrow> jsstring list" where
  "splitOn sep [] = [[]]"
| "splitOn sep (c # cs) =
     (if c = sep then [] # splitOn sep cs
      else (case splitOn sep cs of r # rs \<Rightarrow> (c # r) # rs | [] \<Rightarrow> [[c]]))"

text \<open>\<^verbatim>\<open>xs.indexOf(x)\<close>: the first index holding \<open>x\<close>, or \<open>-1\<close>.\<close>

fun indexOf :: "jsstring list \<Rightarrow> jsstring \<Rightarrow> int" where
  "indexOf [] x = - 1"
| "indexOf (y # ys) x =
     (if y = x then 0 else (let r = indexOf ys x in if r = - 1 then - 1 else r + 1))"

section \<open>The label record and the table parser (handleProcessData)\<close>

text \<open>
  \<open>LabelData\<close> is declared in \<^verbatim>\<open>./types\<close>; its four fields are the ones the
  components read and write (the field \<^verbatim>\<open>id\<close> is \<open>id_label\<close> here, and the local
  variables \<^verbatim>\<open>code\<close>, \<^verbatim>\<open>description\<close> and \<^verbatim>\<open>quantity\<close> of the handlers
  are \<open>codeStr\<close>, \<open>descStr\<close> and \<open>qty\<close>). \<open>quantity\<close> is a JavaScript number that the parser and the
  quantity editor only ever fill from \<^verbatim>\<open>parseInt\<close>, hence an integer here: the
  integer value of the double.
\<close>

record LabelData =
  id_label :: jsstring
  code :: jsstring
  description :: jsstring
  quantity :: int

text \<open>The three header names the parser looks for, with their accented letters.\<close>

definition CODE_HEADER :: jsstring where
  "CODE_HEADER = ascii ''N'' @ [0xFA] @ ascii ''mero de art'' @ [0xED] @ ascii ''culo''"

definition DESC_HEADER :: jsstring where
  "DESC_HEADER = ascii ''Descripci'' @ [0xF3] @ ascii ''n del art'' @ [0xED] @ ascii ''culo''"

definition QTY_HEADER :: jsstring where
  "QTY_HEADER = ascii ''Cantidad de Etiquetas''"

text \<open>
  The errors the handler reports with \<^verbatim>\<open>setError\<close>, by kind: too few rows, a required
  column that is not in the header row (with its name), and no valid data row.
\<close>

datatype parse_error = InsufficientRows | MissingColumn jsstring | NoValidRows

text \<open>
  What one run of the handler does: it returns without any message (\<open>Ignored\<close>), it
  reports an error, or it appends new records to the list.
\<close>

datatype outcome = Ignored | Failed parse_error | Added "LabelData list"

text \<open>
  The identifier \<^verbatim>\<open>label-${Date.now()}-${index}\<close>; \<open>clock index\<close> is what
  \<^verbatim>\<open>Date.now()\<close> answers while the row at \<open>index\<close> is processed.
\<close>

definition labelId :: "(nat \<Rightarrow> nat) \<Rightarrow> nat \<Rightarrow> jsstring" where
  "labelId clock index = ascii ''label-'' @ showNat (clock index) @ ascii ''-'' @ showNat index"

text \<open>
  The body of \<^verbatim>\<open>dataRows.forEach\<close> in the strict variant (the unnamed source and the
  second component of App.tsx): a row gives a record only when its quantity parses to a
  number greater than zero.
\<close>

definition rowStrict ::
  "(nat \<Rightarrow> nat) \<Rightarrow> nat \<Rightarrow> nat \<Rightarrow> nat \<Rightarrow> nat \<times> jsstring \<Rightarrow> LabelData list" where
  "rowStrict clock codeIndex descIndex qtyIndex ir =
     (let index = fst ir; rowStr = snd ir;
          columns = map trim (splitOn TAB rowStr) in
      if length columns > max codeIndex (max descIndex qtyIndex) then
        let codeStr = columns ! codeIndex;
            descStr = sanitizeString (columns ! descIndex);
            quantityStr = columns ! qtyIndex
        in if codeStr \<noteq> [] \<and> descStr \<noteq> [] \<and> quantityStr \<noteq> [] then
             (case parseInt quantityStr of
                None \<Rightarrow> []
              | Some qty \<Rightarrow>
                  if qty > 0 then
                    [\<lparr>id_label = labelId clock index, code = codeStr,
                      description = descStr, quantity = qty\<rparr>]
                  else [])
           else []
      else [])"

text \<open>
  The same body in the lenient variant (the first component of App.tsx): the quantity
  starts at 0 and is replaced by whatever \<^verbatim>\<open>parseInt\<close> reads, when it reads a number.
\<close>

definition rowLenient ::
  "(nat \<Rightarrow> nat) \<Rightarrow> nat \<Rightarrow> nat \<Rightarrow> nat \<Rightarrow> nat \<times> jsstring \<Rightarrow> LabelData list" where
  "rowLenient clock codeIndex descIndex qtyIndex ir =
     (let index = fst ir; rowStr = snd ir;
          columns = map trim (splitOn TAB rowStr) in
      if length columns > max codeIndex (max descIndex qtyIndex) then
        let codeStr = columns ! codeIndex;
            descStr = sanitizeString (columns ! descIndex);
            quantityStr = columns ! qtyIndex
        in if codeStr \<noteq> [] \<and> descStr \<noteq> [] then
             (let qty = (if quantityStr \<noteq> [] \<and> parseInt quantityStr \<noteq> None
                         then the (parseInt quantityStr) else 0)
              in [\<lparr>id_label = labelId clock index, code = codeStr,
                    description = descStr, quantity = qty\<rparr>])
           else []
      else [])"

datatype quantity_policy = Strict | Lenient

definition processRow ::
  "quantity_policy \<Rightarrow> (nat \<Rightarrow> nat) \<Rightarrow> nat \<Rightarrow> nat \<Rightarrow> nat \<Rightarrow> nat \<times> jsstring \<Rightarrow> LabelData list" where
  "processRow policy = (case policy of Strict \<Rightarrow> rowStrict | Lenient \<Rightarrow> rowLenient)"

text \<open>The non-empty rows of the pasted text, and the trimmed headers of the first one.\<close>

definition tableRows :: "jsstring \<Rightarrow> jsstring list" where
  "tableRows text = filter (\<lambda>row. trim row \<noteq> []) (splitOn NEWLINE text)"

definition tableHeaders :: "jsstring list \<Rightarrow> jsstring list" where
  "tableHeaders rows = map trim (splitOn TAB (hd rows))"

text \<open>
  \<open>handleProcessData\<close> up to its effect on the component state: \<open>pasted\<close> is the value
  of the text area. An empty value, and a value that is empty once trimmed, end the
  handler before any message is set.
\<close>

definition parseTable :: "quantity_policy \<Rightarrow> (nat \<Rightarrow> nat) \<Rightarrow> jsstring \<Rightarrow> outcome" where
  "parseTable policy clock pasted =
     (if pasted = [] then Ignored
      else
        let text = trim pasted in
        if text = [] then Ignored
        else
          let rows = tableRows text in
          if length rows < 2 then Failed InsufficientRows
          else
            let headers = tableHeaders rows;
                codeIndex = indexOf headers CODE_HEADER;
                descIndex = indexOf headers DESC_HEADER;
                qtyIndex = indexOf headers QTY_HEADER
            in
              if codeIndex = - 1 then Failed (MissingColumn CODE_HEADER)
              else if descIndex = - 1 then Failed (MissingColumn DESC_HEADER)
              else if qtyIndex = - 1 then Failed (MissingColumn QTY_HEADER)
              else
                let dataRows = tl rows;
                    newLabels = concat (map (processRow policy clock (nat codeIndex)
                                               (nat descIndex) (nat qtyIndex))
                                          (enumerate 0 dataRows))
                in if length newLabels > 0 then Added newLabels else Failed NoValidRows)"

text \<open>
  The component state the handler works on, and the handler as a state transformer:
  both messages are cleared first; new records are appended to the list, and the text
  area is emptied, only on success.
\<close>

datatype success_message = DataProcessed | FileGenerated

record app_state =
  labels :: "LabelData list"
  error :: "parse_error option"
  success :: "success_message option"
  pasteArea :: jsstring

definition handleProcessData :: "quantity_policy \<Rightarrow> (nat \<Rightarrow> nat) \<Rightarrow> app_state \<Rightarrow> app_state" where
  "handleProcessData policy clock st =
     (let st0 = st\<lparr>error := None, success := None\<rparr> in
      case parseTable policy clock (pasteArea st) of
        Ignored \<Rightarrow> st0
      | Failed e \<Rightarrow> st0\<lparr>error := Some e\<rparr>
      | Added newLabels \<Rightarrow>
          st0\<lparr>labels := labels st @ newLabels, pasteArea := [],
              success := Some DataProcessed\<rparr>)"

text \<open>The quantity editor of a label card, and \<open>handleQuantityChange\<close> of the list.\<close>

definition handleQuantityChange :: "jsstring \<Rightarrow> int \<Rightarrow> LabelData list \<Rightarrow> LabelData list" where
  "handleQuantityChange ident qty currentLabels =
     map (\<lambda>l. if id_label l = ident then l\<lparr>quantity := qty\<rparr> else l) currentLabels"

definition cardOnChange :: "LabelData \<Rightarrow> jsstring \<Rightarrow> LabelData list \<Rightarrow> LabelData list" where
  "cardOnChange label typed currentLabels =
     (case parseInt typed of
        None \<Rightarrow> currentLabels
      | Some val \<Rightarrow> if val > 0 then handleQuantityChange (id_label label) val currentLabels
                    else currentLabels)"

text \<open>
  \<open>AddLabelModal.handleAdd\<close> followed by the \<open>onAdd\<close> callback of the first component:
  the quantity typed in the number field is \<open>None\<close> when it is \<open>NaN\<close> (a fractional
  quantity, which the number field also admits, is outside this model). \<open>Inl\<close> carries
  the message shown in the dialog.
\<close>

datatype add_error = CodeAndDescriptionRequired | QuantityMustBeZeroOrMore

definition handleAdd ::
  "nat \<Rightarrow> jsstring \<Rightarrow> jsstring \<Rightarrow> int option \<Rightarrow> LabelData list \<Rightarrow> add_error + LabelData list" where
  "handleAdd now codeField descriptionField quantityField currentLabels =
     (if trim codeField = [] \<or> trim descriptionField = [] then Inl CodeAndDescriptionRequired
      else
        (case quantityField of
           None \<Rightarrow> Inl QuantityMustBeZeroOrMore
         | Some q \<Rightarrow>
             if q < 0 then Inl QuantityMustBeZeroOrMore
             else Inr (currentLabels @
                       [\<lparr>id_label = ascii ''label-manual-'' @ showNat now,
                         code = trim codeField, description = trim descriptionField,
                         quantity = q\<rparr>])))"

section \<open>The printer document encoders (handleDownloadTxt)\<close>

text \<open>
  The control characters. The split encoder (the unnamed source) and the single-barcode
  encoder (first component of App.tsx) write them as the visible tags \<^verbatim>\<open><STX>\<close>,
  \<^verbatim>\<open><ETX>\<close> and so on; the triple-barcode encoder of the second component of App.tsx
  writes the real control codes.
\<close>

definition CRLF :: jsstring where "CRLF = [0x0D, 0x0A]"
definition DQUOTE :: jsstring where "DQUOTE = [0x22]"

definition STX :: jsstring where "STX = ascii ''<STX>''"
definition ETX :: jsstring where "ETX = ascii ''<ETX>''"
definition ESC :: jsstring where "ESC = ascii ''<ESC>''"
definition LF :: jsstring where "LF = ascii ''<LF>''"
definition US :: jsstring where "US = ascii ''<US>''"
definition ETB :: jsstring where "ETB = ascii ''<ETB>''"
definition CAN :: jsstring where "CAN = ascii ''<CAN>''"

text \<open>
  One field assignment \<^verbatim>\<open>${STX}${ESC}F"name"${LF}${value}${ETX}\r\n\<close> of the tagged
  encoders, as it is written out line by line in each block builder.
\<close>

definition fieldLine :: "string \<Rightarrow> jsstring \<Rightarrow> jsstring" where
  "fieldLine name v = STX @ ESC @ ascii ''F'' @ DQUOTE @ ascii name @ DQUOTE @ LF @ v @ ETX @ CRLF"

text \<open>
  \<open>buildMainBlock\<close> and \<open>buildResidualBlock\<close> of the split encoder. A block whose
  quantity directive holds a number that \<open>showNumber\<close> does not render is \<open>None\<close>.
\<close>

definition buildMainBlock :: "jsstring \<Rightarrow> jsstring \<Rightarrow> jsstring \<Rightarrow> int \<Rightarrow> jsstring option" where
  "buildMainBlock codeStr line1 line2 qty =
     map_option (\<lambda>copies.
       STX @ ESC @ ascii ''E1'' @ CAN @ ETX @ CRLF @
       fieldLine ''BR0'' codeStr @
       fieldLine ''BR1'' codeStr @
       fieldLine ''BR2'' codeStr @
       fieldLine ''TX3'' line1 @
       fieldLine ''TX4'' line2 @
       fieldLine ''TX5'' line1 @
       fieldLine ''TX6'' line2 @
       fieldLine ''TX7'' line1 @
       fieldLine ''TX8'' line2 @
       STX @ US @ copies @ ETX @ CRLF @
       STX @ ETB @ ETX @ CRLF) (showNumber qty)"

definition buildResidualBlock :: "jsstring \<Rightarrow> jsstring \<Rightarrow> jsstring \<Rightarrow> jsstring" where
  "buildResidualBlock codeStr line1 line2 =
     STX @ ESC @ ascii ''E1'' @ CAN @ ETX @ CRLF @
     fieldLine ''BR0'' codeStr @
     fieldLine ''TX3'' line1 @
     fieldLine ''TX4'' line2 @
     STX @ US @ ascii ''1'' @ ETX @ CRLF @
     STX @ ETB @ ETX @ CRLF"

text \<open>
  The body of \<^verbatim>\<open>labels.forEach\<close> in the split encoder, and the \<open>blocks\<close> array it
  fills. (The file is the fixed header lines followed by these blocks, joined by CR LF.)
\<close>

definition splitBlocksOf :: "LabelData \<Rightarrow> jsstring option list" where
  "splitBlocksOf label =
     (let line1 = fst (splitDescription (description label) defaultMaxLength);
          line2 = snd (splitDescription (description label) defaultMaxLength);
          qty = quantity label
      in if qty > 1 then
           [buildMainBlock (code label) line1 line2 (jsMinus qty 1),
            Some (buildResidualBlock (code label) line1 line2)]
         else if qty = 1 then [buildMainBlock (code label) line1 line2 1]
         else [])"

definition splitBlocks :: "LabelData list \<Rightarrow> jsstring option list" where
  "splitBlocks ls = concat (map splitBlocksOf ls)"

text \<open>
  \<open>buildLabelBlock\<close> of the single-barcode encoder (first component of App.tsx), and its
  \<open>blocks\<close> array: one block per record, after the records with a quantity of zero or
  less have been filtered out.
\<close>

definition buildLabelBlock :: "jsstring \<Rightarrow> jsstring \<Rightarrow> jsstring \<Rightarrow> int \<Rightarrow> jsstring option" where
  "buildLabelBlock codeStr line1 line2 qty =
     map_option (\<lambda>copies.
       STX @ ESC @ ascii ''E1'' @ CAN @ ETX @ CRLF @
       fieldLine ''BR0'' codeStr @
       fieldLine ''TX3'' line1 @
       fieldLine ''TX4'' line2 @
       STX @ US @ copies @ ETX @ CRLF @
       STX @ ETB @ ETX @ CRLF) (showNumber qty)"

definition exactBlocks :: "LabelData list \<Rightarrow> jsstring option list" where
  "exactBlocks ls =
     map (\<lambda>label.
            buildLabelBlock (code label)
              (fst (splitDescription (description label) defaultMaxLength))
              (snd (splitDescription (description label) defaultMaxLength))
              (quantity label))
         (filter (\<lambda>label. quantity label > 0) ls)"

text \<open>
  The second component of App.tsx, with the triple-barcode encoder. Its list of records
  is written in three places only: the strict parser appends to it, \<open>handleRemoveLabel\<close>
  takes one record out, and \<open>clearAll\<close> empties it; there is no quantity editor and no
  manual entry. \<open>tripleReach\<close> holds of the states the component can be in: it starts with
  an empty list, the user changes the text area (which clears both messages), and the
  three handlers and the download run.
\<close>

definition handleRemoveLabel :: "jsstring \<Rightarrow> app_state \<Rightarrow> app_state" where
  "handleRemoveLabel ident st =
     st\<lparr>labels := filter (\<lambda>l. id_label l \<noteq> ident) (labels st), success := None\<rparr>"

definition clearAll :: "app_state \<Rightarrow> app_state" where
  "clearAll st = st\<lparr>labels := [], error := None, success := None\<rparr>"

definition handleInputChange :: "jsstring \<Rightarrow> app_state \<Rightarrow> app_state" where
  "handleInputChange typed st = st\<lparr>pasteArea := typed, error := None, success := None\<rparr>"

definition downloaded :: "app_state \<Rightarrow> app_state" where
  "downloaded st = st\<lparr>error := None, success := Some FileGenerated\<rparr>"

definition initialState :: app_state where
  "initialState = \<lparr>labels = [], error = None, success = None, pasteArea = []\<rparr>"

inductive tripleReach :: "app_state \<Rightarrow> bool" where
  start: "tripleReach initialState"
| typed: "tripleReach st \<Longrightarrow> tripleReach (handleInputChange v st)"
| processed: "tripleReach st \<Longrightarrow> tripleReach (handleProcessData Strict clock st)"
| removed: "tripleReach st \<Longrightarrow> tripleReach (handleRemoveLabel ident st)"
| cleared: "tripleReach st \<Longrightarrow> tripleReach (clearAll st)"
| saved: "tripleReach st \<Longrightarrow> tripleReach (downloaded st)"

text \<open>
  The dynamic blocks of the triple-barcode encoder: real control codes, no line breaks,
  one block per record of the list with the record's quantity, and no filter on the
  quantity.
\<close>

definition rawField :: "string \<Rightarrow> jsstring \<Rightarrow> jsstring" where
  "rawField name v = [0x02, 0x1B] @ ascii ''F'' @ DQUOTE @ ascii name @ DQUOTE @ [0x0A] @ v @ [0x03]"

definition tripleBlock :: "LabelData \<Rightarrow> jsstring option" where
  "tripleBlock label =
     (let linea1 = fst (splitDescription (description label) defaultMaxLength);
          linea2 = snd (splitDescription (description label) defaultMaxLength)
      in map_option (\<lambda>copies.
           [0x02, 0x1B] @ ascii ''E1'' @ [0x18, 0x03] @
           rawField ''BR0'' (code label) @
           rawField ''BR1'' (code label) @
           rawField ''BR2'' (code label) @
           rawField ''TX3'' linea1 @
           rawField ''TX4'' linea2 @
           rawField ''TX5'' linea1 @
           rawField ''TX6'' linea2 @
           rawField ''TX7'' linea1 @
           rawField ''TX8'' linea2 @
           [0x02, 0x1F] @ copies @ [0x03] @
           [0x02, 0x17, 0x03]) (showNumber (quantity label)))"

definition tripleBlocks :: "LabelData list \<Rightarrow> jsstring option list" where
  "tripleBlocks ls = map tripleBlock ls"

text \<open>Sample records and table texts.\<close>

definition sampleLabel :: "int \<Rightarrow> LabelData" where
  "sampleLabel q =
     \<lparr>id_label = ascii ''label-17-0'', code = ascii ''12345'',
      description = bovinosDescription, quantity = q\<rparr>"

definition sampleTable :: "jsstring \<Rightarrow> jsstring \<Rightarrow> jsstring" where
  "sampleTable qtyHeader qtyField =
     CODE_HEADER @ [TAB] @ DESC_HEADER @ [TAB] @ qtyHeader @ [NEWLINE] @
     ascii ''12345'' @ [TAB] @ bovinosDescription @ [TAB] @ qtyField"

definition sampleClock :: "nat \<Rightarrow> nat" where
  "sampleClock index = 17"

section \<open>Views used to state the properties\<close>

text \<open>
  The content of a record apart from its identifier, and the result of a run of the
  parser with the identifiers left out.
\<close>

definition recordFields :: "LabelData \<Rightarrow> jsstring \<times> jsstring \<times> int" where
  "recordFields l = (code l, description l, quantity l)"

fun outcomeFields :: "outcome \<Rightarrow> (parse_error + (jsstring \<times> jsstring \<times> int) list) option" where
  "outcomeFields Ignored = None"
| "outcomeFields (Failed e) = Some (Inl e)"
| "outcomeFields (Added ls) = Some (Inr (map recordFields ls))"

text \<open>
  A table whose description field carries a byte-order mark and the three zero-width
  characters, and a component state with an empty list.
\<close>

definition invisibleTable :: jsstring where
  "invisibleTable =
     CODE_HEADER @ [TAB] @ DESC_HEADER @ [TAB] @ QTY_HEADER @ [NEWLINE] @
     ascii ''778'' @ [TAB] @ [0xFEFF, 0x200B] @ ascii ''Alambre'' @ [0x200C] @ ascii '' 17/15'' @
       [0x200D] @ [TAB] @ ascii ''2''"

definition emptyState :: "jsstring \<Rightarrow> app_state" where
  "emptyState pasted = \<lparr>labels = [], error = None, success = None, pasteArea = pasted\<rparr>"

text \<open>A second clock, which answers a different time at every row.\<close>

definition laterClock :: "nat \<Rightarrow> nat" where
  "laterClock index = 23 + index"

text \<open>
  A table whose description field has white space behind a zero-width space at either
  end, and a table whose quantity is \<open>2^53 + 2\<close>.
\<close>

definition shieldedTable :: jsstring where
  "shieldedTable =
     CODE_HEADER @ [TAB] @ DESC_HEADER @ [TAB] @ QTY_HEADER @ [NEWLINE] @
     ascii ''778'' @ [TAB] @ ascii '' '' @ [0x200B] @ ascii '' Alambre '' @ [0x200B] @ ascii '' '' @
       [TAB] @ ascii ''2''"

definition hugeTable :: jsstring where
  "hugeTable = sampleTable QTY_HEADER (ascii ''9007199254740994'')"

definition shieldedRecord :: LabelData where
  "shieldedRecord =
     \<lparr>id_label = ascii ''label-17-0'', code = ascii ''778'',
      description = ascii '' Alambre '', quantity = 2\<rparr>"

text \<open>
  The state of the second component after the user has pasted the sample table and run
  the parser.
\<close>

definition processedState :: app_state where
  "processedState =
     handleProcessData Strict sampleClock
       (handleInputChange (sampleTable QTY_HEADER (ascii ''3'')) initialState)"

section \<open>Facts about trimming\<close>

lemma trimStart_decomp: "s = takeWhile isWhiteSpace s @ trimStart s"
  by (simp add: trimStart_def)

lemma trimEnd_decomp: "s = trimEnd s @ rev (takeWhile isWhiteSpace (rev s))"
  unfolding trimEnd_def
  by (metis rev_append rev_rev_ident takeWhile_dropWhile_id)

lemma trimStart_id: "s \<noteq> [] \<Longrightarrow> \<not> isWhiteSpace (hd s) \<Longrightarrow> trimStart s = s"
  by (cases s) (simp_all add: trimStart_def)

lemma trimEnd_id: "s \<noteq> [] \<Longrightarrow> \<not> isWhiteSpace (last s) \<Longrightarrow> trimEnd s = s"
proof -
  assume a: "s \<noteq> []" "\<not> isWhiteSpace (last s)"
  then have "rev s \<noteq> []" "\<not> isWhiteSpace (hd (rev s))" by (simp_all add: hd_rev)
  then have "dropWhile isWhiteSpace (rev s) = rev s" by (cases "rev s") simp_all
  then show ?thesis by (simp add: trimEnd_def)
qed

lemma trimStart_hd: "trimStart s \<noteq> [] \<Longrightarrow> \<not> isWhiteSpace (hd (trimStart s))"
  unfolding trimStart_def by (rule hd_dropWhile)

lemma trimEnd_last: "trimEnd s \<noteq> [] \<Longrightarrow> \<not> isWhiteSpace (last (trimEnd s))"
proof -
  assume "trimEnd s \<noteq> []"
  then have ne: "dropWhile isWhiteSpace (rev s) \<noteq> []" by (simp add: trimEnd_def)
  then have "\<not> isWhiteSpace (hd (dropWhile isWhiteSpace (rev s)))" by (rule hd_dropWhile)
  with ne show ?thesis by (simp add: trimEnd_def last_rev)
qed

lemma trimEnd_hd: "trimEnd s \<noteq> [] \<Longrightarrow> hd (trimEnd s) = hd s"
proof -
  assume ne: "trimEnd s \<noteq> []"
  have "s = trimEnd s @ rev (takeWhile isWhiteSpace (rev s))" by (rule trimEnd_decomp)
  then have "hd s = hd (trimEnd s @ rev (takeWhile isWhiteSpace (rev s)))" by simp
  with ne show ?thesis by simp
qed

lemma trim_hd: "trim s \<noteq> [] \<Longrightarrow> \<not> isWhiteSpace (hd (trim s))"
proof -
  assume ne: "trim s \<noteq> []"
  then have ne': "trimStart s \<noteq> []" by (auto simp: trim_def trimEnd_def)
  from ne have "hd (trim s) = hd (trimStart s)" by (simp add: trim_def trimEnd_hd)
  with trimStart_hd [OF ne'] show ?thesis by simp
qed

lemma trim_last: "trim s \<noteq> [] \<Longrightarrow> \<not> isWhiteSpace (last (trim s))"
  by (simp add: trim_def trimEnd_last)

lemma trim_length_le: "length (trim s) \<le> length s"
proof -
  have "length (trim s) \<le> length (trimStart s)"
    by (simp add: trim_def trimEnd_def) (metis length_dropWhile_le length_rev)
  also have "\<dots> \<le> length s" by (simp add: trimStart_def length_dropWhile_le)
  finally show ?thesis .
qed

text \<open>a prefix that starts with a visible character only loses trailing white space\<close>
lemma trim_prefix_decomp:
  assumes "s \<noteq> []" "\<not> isWhiteSpace (hd s)"
  shows "\<exists>w. list_all isWhiteSpace w \<and> s = trim s @ w"
proof -
  from assms have "trim s = trimEnd s" by (simp add: trim_def trimStart_id)
  moreover have "s = trimEnd s @ rev (takeWhile isWhiteSpace (rev s))" by (rule trimEnd_decomp)
  moreover have "list_all isWhiteSpace (rev (takeWhile isWhiteSpace (rev s)))"
    by (simp add: list_all_iff) (metis set_takeWhileD)
  ultimately show ?thesis by metis
qed

lemma trim_suffix_decomp:
  assumes "s \<noteq> []" "\<not> isWhiteSpace (last s)"
  shows "\<exists>w. list_all isWhiteSpace w \<and> s = w @ trim s"
proof -
  from assms have ne: "trimStart s \<noteq> []"
    by (metis dropWhile_eq_Nil_conv last_in_set trimStart_def)
  have "last (trimStart s) = last s"
    using ne by (metis trimStart_decomp last_appendR)
  with assms ne have "trim s = trimStart s" by (simp add: trim_def trimEnd_id)
  moreover have "s = takeWhile isWhiteSpace s @ trimStart s" by (rule trimStart_decomp)
  moreover have "list_all isWhiteSpace (takeWhile isWhiteSpace s)"
    by (simp add: list_all_iff) (metis set_takeWhileD)
  ultimately show ?thesis by metis
qed

lemma trim_Nil: "trim [] = []"
  by (simp add: trim_def trimStart_def trimEnd_def)

lemma trim_fixed:
  assumes "s \<noteq> []" "\<not> isWhiteSpace (hd s)" "\<not> isWhiteSpace (last s)"
  shows "trim s = s"
  using assms by (simp add: trim_def trimStart_id trimEnd_id)

lemma trim_trim: "trim (trim s) = trim s"
proof (cases "trim s = []")
  case True
  have "trim [] = []" by (simp add: trim_def trimStart_def trimEnd_def)
  with True show ?thesis by simp
next
  case False
  then show ?thesis by (intro trim_fixed trim_hd trim_last)
qed

lemma trim_split_decomp:
  assumes "k < length (trim d)"
  shows "\<exists>w. list_all isWhiteSpace w \<and>
             trim d = trim (take k (trim d)) @ w @ trim (drop k (trim d))"
proof (cases "k = 0")
  case True
  have "trim [] = []" by (simp add: trim_def trimStart_def trimEnd_def)
  with True have "trim d = trim (take k (trim d)) @ [] @ trim (drop k (trim d))"
    by (simp add: trim_trim)
  moreover have "list_all isWhiteSpace []" by simp
  ultimately show ?thesis by blast
next
  case False
  let ?t = "trim d"
  from assms have ne: "?t \<noteq> []" by auto
  from False assms have tk: "take k ?t \<noteq> []" by auto
  from False have "hd (take k ?t) = hd ?t" by simp
  with trim_hd [OF ne] have "\<not> isWhiteSpace (hd (take k ?t))" by simp
  from trim_prefix_decomp [OF tk this]
  obtain w1 where w1: "list_all isWhiteSpace w1" "take k ?t = trim (take k ?t) @ w1" by blast
  from assms have dk: "drop k ?t \<noteq> []" by simp
  from assms have "last (drop k ?t) = last ?t" by simp
  with trim_last [OF ne] have "\<not> isWhiteSpace (last (drop k ?t))" by simp
  from trim_suffix_decomp [OF dk this]
  obtain w2 where w2: "list_all isWhiteSpace w2" "drop k ?t = w2 @ trim (drop k ?t)" by blast
  have "?t = take k ?t @ drop k ?t" by simp
  also have "\<dots> = trim (take k ?t) @ (w1 @ w2) @ trim (drop k ?t)"
    using w1(2) w2(2) by (metis append.assoc)
  finally have "?t = trim (take k ?t) @ (w1 @ w2) @ trim (drop k ?t)" .
  moreover from w1(1) w2(1) have "list_all isWhiteSpace (w1 @ w2)" by simp
  ultimately show ?thesis by blast
qed

section \<open>Facts about lastIndexOf and splitDescription\<close>

lemma lastIndexFrom_cases:
  "lastIndexFrom s c k = -1 \<or>
   (0 \<le> lastIndexFrom s c k \<and> nat (lastIndexFrom s c k) \<le> k \<and>
    nat (lastIndexFrom s c k) < length s \<and> s ! nat (lastIndexFrom s c k) = c)"
proof (induction k)
  case 0
  then show ?case by auto
next
  case (Suc k)
  show ?case
  proof (cases "Suc k < length s \<and> s ! Suc k = c")
    case True
    then have "lastIndexFrom s c (Suc k) = int (Suc k)" by simp
    with True show ?thesis by (simp only: nat_int) simp
  next
    case False
    then have "lastIndexFrom s c (Suc k) = lastIndexFrom s c k" by auto
    with Suc show ?thesis by auto
  qed
qed

lemma lastIndexFrom_none:
  "lastIndexFrom s c k = -1 \<longleftrightarrow> (\<forall>j\<le>k. j < length s \<longrightarrow> s ! j \<noteq> c)"
proof (induction k)
  case 0
  then show ?case by auto
next
  case (Suc k)
  then show ?case by (auto simp: le_Suc_eq)
qed

lemma lastIndexFrom_unique:
  "p \<le> k \<Longrightarrow> p < length s \<Longrightarrow> s ! p = c \<Longrightarrow> (\<forall>j. p < j \<and> j \<le> k \<longrightarrow> s ! j \<noteq> c)
     \<Longrightarrow> lastIndexFrom s c k = int p"
proof (induction k)
  case 0
  then show ?case by auto
next
  case (Suc k)
  show ?case
  proof (cases "p = Suc k")
    case True
    with Suc.prems show ?thesis by simp
  next
    case False
    with Suc.prems have "p \<le> k" by simp
    moreover from Suc.prems have "\<forall>j. p < j \<and> j \<le> k \<longrightarrow> s ! j \<noteq> c" by simp
    ultimately have "lastIndexFrom s c k = int p" using Suc.prems Suc.IH by blast
    moreover from Suc.prems False have "s ! Suc k \<noteq> c" by simp
    ultimately show ?thesis by simp
  qed
qed

lemma splitDescription_short:
  "length (trim d) \<le> m \<Longrightarrow> splitDescription d m = (trim d, [])"
  by (simp add: splitDescription_def)

lemma splitDescription_long:
  assumes "m < length (trim d)"
  shows "splitDescription d m =
     (let found = lastIndexFrom (trim d) SPACE m;
          k = (if found \<le> 0 then m else nat found)
      in (trim (take k (trim d)), trim (drop k (trim d))))"
proof -
  from assms have ne: "trim d \<noteq> []" by auto
  from assms have mm: "min m (length (trim d) - 1) = m" by simp
  have sub: "\<And>k. substring (trim d) 0 k = take k (trim d)"
    by (simp add: substring_def Let_def min_def)
  have subF: "\<And>k. substringFrom (trim d) k = drop k (trim d)"
    by (simp add: substringFrom_def min_def)
  from assms have "\<not> length (trim d) \<le> m" by simp
  then show ?thesis
    by (simp add: splitDescription_def Let_def lastIndexOf_def ne mm sub subF)
qed

lemma splitDescription_at_space:
  assumes "m < length (trim d)" "0 < p" "lastSpaceAt (trim d) m p"
  shows "splitDescription d m = (trim (take p (trim d)), trim (drop (Suc p) (trim d)))"
proof -
  from assms(3) have p: "p \<le> m" "p < length (trim d)" "trim d ! p = SPACE"
    by (simp_all add: lastSpaceAt_def)
  have after: "\<forall>j. p < j \<and> j \<le> m \<longrightarrow> trim d ! j \<noteq> SPACE"
  proof (intro allI impI)
    fix j
    assume "p < j \<and> j \<le> m"
    then have "j \<in> set [Suc p..<Suc m]" by (simp del: upt_Suc)
    with assms(3) show "trim d ! j \<noteq> SPACE"
      unfolding lastSpaceAt_def by blast
  qed
  from p after have found: "lastIndexFrom (trim d) SPACE m = int p"
    by (intro lastIndexFrom_unique) auto
  have "drop p (trim d) = SPACE # drop (Suc p) (trim d)"
    using p by (metis Cons_nth_drop_Suc)
  then have "trim (drop p (trim d)) = trim (drop (Suc p) (trim d))"
    by (simp add: trim_def trimStart_def isWhiteSpace_def SPACE_def)
  with found assms(1,2) show ?thesis
    by (simp add: splitDescription_long Let_def)
qed

lemma splitDescription_no_space:
  assumes "m < length (trim d)" "\<forall>j \<in> {1..m}. trim d ! j \<noteq> SPACE"
  shows "splitDescription d m = (trim (take m (trim d)), trim (drop m (trim d)))"
proof -
  define r where "r = lastIndexFrom (trim d) SPACE m"
  have "r \<le> 0"
  proof (rule ccontr)
    assume "\<not> r \<le> 0"
    then have pos: "0 < nat r" by simp
    with lastIndexFrom_cases [of "trim d" SPACE m]
    have "nat r \<le> m" "trim d ! nat r = SPACE" by (auto simp: r_def)
    with pos assms(2) show False by auto
  qed
  then have "lastIndexFrom (trim d) SPACE m \<le> 0" by (simp add: r_def)
  with assms(1) show ?thesis by (simp add: splitDescription_long Let_def)
qed

lemma splitPos_le:
  "(if lastIndexFrom t c m \<le> 0 then m else nat (lastIndexFrom t c m)) \<le> m"
  using lastIndexFrom_cases [of t c m] by auto

lemma splitDescription_fst_le: "length (fst (splitDescription d m)) \<le> m"
proof (cases "length (trim d) \<le> m")
  case True
  then show ?thesis by (simp add: splitDescription_short)
next
  case False
  define k where "k = (if lastIndexFrom (trim d) SPACE m \<le> 0 then m
                       else nat (lastIndexFrom (trim d) SPACE m))"
  have "k \<le> m" unfolding k_def by (rule splitPos_le)
  from False have "fst (splitDescription d m) = trim (take k (trim d))"
    by (simp add: splitDescription_long Let_def k_def)
  moreover have "length (trim (take k (trim d))) \<le> length (take k (trim d))"
    by (rule trim_length_le)
  ultimately show ?thesis using \<open>k \<le> m\<close> by simp
qed

lemma splitDescription_decomp:
  "\<exists>w. list_all isWhiteSpace w \<and>
       trim d = fst (splitDescription d m) @ w @ snd (splitDescription d m)"
proof (cases "length (trim d) \<le> m")
  case True
  then have "trim d = fst (splitDescription d m) @ [] @ snd (splitDescription d m)"
    by (simp add: splitDescription_short)
  moreover have "list_all isWhiteSpace []" by simp
  ultimately show ?thesis by blast
next
  case False
  define k where "k = (if lastIndexFrom (trim d) SPACE m \<le> 0 then m
                       else nat (lastIndexFrom (trim d) SPACE m))"
  have "k \<le> m" unfolding k_def by (rule splitPos_le)
  with False have "k < length (trim d)" by simp
  from trim_split_decomp [OF this] False show ?thesis
    by (simp add: splitDescription_long Let_def k_def)
qed

lemma splitDescription_single_space:
  assumes "m < length (trim d)" "0 < p" "lastSpaceAt (trim d) m p"
    and "\<not> isWhiteSpace (trim d ! (p - 1))" "\<not> isWhiteSpace (trim d ! Suc p)"
  shows "trim d = fst (splitDescription d m) @ [SPACE] @ snd (splitDescription d m)"
proof -
  let ?t = "trim d"
  from assms(1) have ne: "?t \<noteq> []" by auto
  from assms(3) have p: "p \<le> m" "p < length ?t" "?t ! p = SPACE"
    by (simp_all add: lastSpaceAt_def)
  have "isWhiteSpace SPACE" by (simp add: isWhiteSpace_def SPACE_def)
  have "Suc p < length ?t"
  proof (rule ccontr)
    assume "\<not> Suc p < length ?t"
    with p have "p = length ?t - 1" by simp
    with ne p(3) have "last ?t = SPACE" by (simp add: last_conv_nth)
    with trim_last [OF ne] \<open>isWhiteSpace SPACE\<close> show False by simp
  qed
  have tk: "take p ?t \<noteq> []" using assms(2) ne by simp
  have "hd (take p ?t) = hd ?t" using assms(2) by simp
  then have h1: "\<not> isWhiteSpace (hd (take p ?t))" using trim_hd [OF ne] by simp
  have "last (take p ?t) = ?t ! (p - 1)"
    using tk p(2) assms(2) by (simp add: last_conv_nth)
  then have l1: "\<not> isWhiteSpace (last (take p ?t))" using assms(4) by simp
  have dk: "drop (Suc p) ?t \<noteq> []" using \<open>Suc p < length ?t\<close> by simp
  have "hd (drop (Suc p) ?t) = ?t ! Suc p"
    using \<open>Suc p < length ?t\<close> by (simp add: hd_drop_conv_nth)
  then have h2: "\<not> isWhiteSpace (hd (drop (Suc p) ?t))" using assms(5) by simp
  have "last (drop (Suc p) ?t) = last ?t" using \<open>Suc p < length ?t\<close> by simp
  then have l2: "\<not> isWhiteSpace (last (drop (Suc p) ?t))" using trim_last [OF ne] by simp
  have "?t = take p ?t @ ?t ! p # drop (Suc p) ?t"
    using p(2) by (rule id_take_nth_drop)
  with p(3) have "?t = take p ?t @ [SPACE] @ drop (Suc p) ?t" by simp
  moreover have "trim (take p ?t) = take p ?t" using tk h1 l1 by (rule trim_fixed)
  moreover have "trim (drop (Suc p) ?t) = drop (Suc p) ?t" using dk h2 l2 by (rule trim_fixed)
  ultimately show ?thesis
    using splitDescription_at_space [OF assms(1,2,3)] by simp
qed

lemma splitDescription_trimmed:
  "trim (fst (splitDescription d m)) = fst (splitDescription d m) \<and>
   trim (snd (splitDescription d m)) = snd (splitDescription d m)"
proof (cases "length (trim d) \<le> m")
  case True
  then show ?thesis by (simp add: splitDescription_short trim_trim trim_Nil)
next
  case False
  then show ?thesis by (simp add: splitDescription_long Let_def trim_trim)
qed

section \<open>The description wrapper\<close>

text \<open>
  Claim C4. For every description and every maximum line length (in particular the
  default 25), \<open>splitDescription\<close> trims the description and returns it with an empty
  second line when it fits; otherwise, when the last space at or before index
  \<open>maxLength\<close> sits at an index \<open>p > 0\<close>, it splits there, the space itself is
  dropped and both halves are trimmed; and when no space exists at the indices
  \<open>1..maxLength\<close> it cuts at exactly index \<open>maxLength\<close>.
\<close>

theorem splitDescription_cases:
  "(length (trim d) \<le> m \<longrightarrow> splitDescription d m = (trim d, [])) \<and>
   (m < length (trim d) \<and> 0 < p \<and> lastSpaceAt (trim d) m p \<longrightarrow>
      splitDescription d m = (trim (take p (trim d)), trim (drop (Suc p) (trim d)))) \<and>
   (m < length (trim d) \<and> (\<forall>j \<in> {1..m}. trim d ! j \<noteq> SPACE) \<longrightarrow>
      splitDescription d m = (trim (take m (trim d)), trim (drop m (trim d))))"
  using splitDescription_short splitDescription_at_space splitDescription_no_space by blast

theorem splitDescription_cases_witness:
  "length (trim shortDescription) \<le> 25 \<and>
   splitDescription shortDescription 25 = (ascii ''Alambre 17/15'', []) \<and>
   25 < length (trim bovinosDescription) \<and> (0::nat) < 17 \<and>
   lastSpaceAt (trim bovinosDescription) 25 17 \<and>
   splitDescription bovinosDescription 25 =
     (ascii ''Sacos de alimento'', ascii ''balanceado premium para bovinos'') \<and>
   25 < length (trim unbrokenDescription) \<and>
   SPACE \<notin> set (trim unbrokenDescription) \<and>
   splitDescription unbrokenDescription 25 =
     (ascii ''ABCDEFGHIJKLMNOPQRSTUVWXY'', ascii ''Z0123456789'')"
proof -
  have a: "length (trim shortDescription) \<le> 25" by code_simp
  have a': "trim shortDescription = ascii ''Alambre 17/15''" by code_simp
  have b: "25 < length (trim bovinosDescription) \<and> (0::nat) < 17 \<and>
           lastSpaceAt (trim bovinosDescription) 25 17" by code_simp
  have b': "trim (take 17 (trim bovinosDescription)) = ascii ''Sacos de alimento''"
    "trim (drop (Suc 17) (trim bovinosDescription)) = ascii ''balanceado premium para bovinos''"
    by code_simp+
  have c: "25 < length (trim unbrokenDescription) \<and>
           (\<forall>j \<in> {1..25}. trim unbrokenDescription ! j \<noteq> SPACE)" by code_simp
  have c0: "SPACE \<notin> set (trim unbrokenDescription)" by code_simp
  have c': "trim (take 25 (trim unbrokenDescription)) = ascii ''ABCDEFGHIJKLMNOPQRSTUVWXY''"
    "trim (drop 25 (trim unbrokenDescription)) = ascii ''Z0123456789''"
    by code_simp+
  show ?thesis
    using a a' b b' c c0 c'
      splitDescription_cases [of shortDescription 25 17]
      splitDescription_cases [of bovinosDescription 25 17]
      splitDescription_cases [of unbrokenDescription 25 17]
    by simp
qed

text \<open>
  Claim C10. For every description and every maximum line length of at least 1, the
  first line returned by \<open>splitDescription\<close> is at most that long: when the text
  fits, when it is split at a space (also a space exactly at index \<open>maxLength\<close>), and
  when it is cut in the middle of a word.
\<close>

theorem splitDescription_bound:
  "1 \<le> m \<Longrightarrow> length (fst (splitDescription d m)) \<le> m"
  by (rule splitDescription_fst_le)

theorem splitDescription_bound_witness:
  "(1::nat) \<le> 25 \<and> length (fst (splitDescription unbrokenDescription 25)) \<le> 25 \<and>
   fst (splitDescription unbrokenDescription 25) = ascii ''ABCDEFGHIJKLMNOPQRSTUVWXY''"
proof -
  have h: "(1::nat) \<le> 25" by simp
  have "fst (splitDescription unbrokenDescription 25) = ascii ''ABCDEFGHIJKLMNOPQRSTUVWXY''"
    by code_simp
  with h splitDescription_bound [OF h, of unbrokenDescription] show ?thesis by simp
qed

text \<open>
  Claim C5, as the specification states it, fails: with two spaces at the split point
  both are removed, so the two lines joined by a single space (or by nothing) do not
  give back the trimmed text.
\<close>

theorem splitDescription_not_single_space:
  "\<not> reconstructsModuloSpace (trim doubleSpaceDescription)
        (splitDescription doubleSpaceDescription 25)"
  by code_simp

text \<open>
  Claim C5, amended. \<open>splitDescription\<close> always returns two strings, and the trimmed
  description is the first line, then a run of white space, then the second line. When
  the text fits, the first line is the whole trimmed text and the second is empty. Both
  lines are themselves trimmed, so all the white space around the split point is removed.
  When the split is made at a space whose two neighbours are not white space, the run is
  exactly that one space. Whenever a splitting space was found, the first line is no
  longer than the maximum line length.
\<close>

theorem splitDescription_reconstructs:
  "(\<exists>w. list_all isWhiteSpace w \<and>
        trim d = fst (splitDescription d m) @ w @ snd (splitDescription d m)) \<and>
   (m < length (trim d) \<and> 0 < p \<and> lastSpaceAt (trim d) m p \<and>
    \<not> isWhiteSpace (trim d ! (p - 1)) \<and> \<not> isWhiteSpace (trim d ! Suc p) \<longrightarrow>
      trim d = fst (splitDescription d m) @ [SPACE] @ snd (splitDescription d m)) \<and>
   (m < length (trim d) \<and> 0 < lastIndexOf (trim d) SPACE m \<longrightarrow>
      length (fst (splitDescription d m)) \<le> m) \<and>
   (length (trim d) \<le> m \<longrightarrow> splitDescription d m = (trim d, [])) \<and>
   trim (fst (splitDescription d m)) = fst (splitDescription d m) \<and>
   trim (snd (splitDescription d m)) = snd (splitDescription d m)"
  using splitDescription_decomp [of d m] splitDescription_single_space [of m d p]
    splitDescription_fst_le [of d m] splitDescription_short [of d m]
    splitDescription_trimmed [of d m]
  by blast

theorem splitDescription_reconstructs_witness:
  "25 < length (trim bovinosDescription) \<and> (0::nat) < 17 \<and>
   lastSpaceAt (trim bovinosDescription) 25 17 \<and>
   \<not> isWhiteSpace (trim bovinosDescription ! (17 - 1)) \<and>
   \<not> isWhiteSpace (trim bovinosDescription ! Suc 17) \<and>
   0 < lastIndexOf (trim bovinosDescription) SPACE 25 \<and>
   trim bovinosDescription =
     fst (splitDescription bovinosDescription 25) @ [SPACE] @
     snd (splitDescription bovinosDescription 25) \<and>
   length (fst (splitDescription bovinosDescription 25)) \<le> 25"
proof -
  have h: "25 < length (trim bovinosDescription) \<and> (0::nat) < 17 \<and>
   lastSpaceAt (trim bovinosDescription) 25 17 \<and>
   \<not> isWhiteSpace (trim bovinosDescription ! (17 - 1)) \<and>
   \<not> isWhiteSpace (trim bovinosDescription ! Suc 17) \<and>
   0 < lastIndexOf (trim bovinosDescription) SPACE 25"
    by code_simp
  with splitDescription_reconstructs [of bovinosDescription 25 17] show ?thesis by blast
qed

section \<open>Facts about the parser\<close>

lemma tableRows_Nil: "tableRows [] = []"
  by (simp add: tableRows_def trim_Nil)

lemma indexOf_ge: "- 1 \<le> indexOf xs x"
  by (induction xs) (auto simp: Let_def)

lemma indexOf_none: "indexOf xs x = - 1 \<longleftrightarrow> x \<notin> set xs"
proof (induction xs)
  case Nil
  then show ?case by simp
next
  case (Cons y ys)
  have "- 1 \<le> indexOf ys x" by (rule indexOf_ge)
  then have "indexOf ys x + 1 \<noteq> - 1" by simp
  with Cons show ?case by (auto simp: Let_def)
qed

lemma parseTable_rows:
  assumes "2 \<le> length (tableRows (trim pasted))"
  shows "parseTable policy clock pasted =
     (let rows = tableRows (trim pasted);
          headers = tableHeaders rows;
          codeIndex = indexOf headers CODE_HEADER;
          descIndex = indexOf headers DESC_HEADER;
          qtyIndex = indexOf headers QTY_HEADER
      in if codeIndex = - 1 then Failed (MissingColumn CODE_HEADER)
         else if descIndex = - 1 then Failed (MissingColumn DESC_HEADER)
         else if qtyIndex = - 1 then Failed (MissingColumn QTY_HEADER)
         else
           let newLabels = concat (map (processRow policy clock (nat codeIndex)
                                          (nat descIndex) (nat qtyIndex))
                                     (enumerate 0 (tl rows)))
           in if length newLabels > 0 then Added newLabels else Failed NoValidRows)"
proof -
  from assms have t: "trim pasted \<noteq> []" using tableRows_Nil by auto
  then have p: "pasted \<noteq> []" using trim_Nil by auto
  from assms have "\<not> length (tableRows (trim pasted)) < 2" by simp
  with t p show ?thesis by (simp add: parseTable_def Let_def)
qed

lemma parseTable_Added_rows:
  assumes "parseTable policy clock pasted = Added ls"
  shows "2 \<le> length (tableRows (trim pasted))"
  using assms by (auto simp: parseTable_def Let_def split: if_splits)

lemma nth_map_trim:
  "i < length cols \<Longrightarrow> map trim cols ! i = trim (cols ! i)"
  by simp

lemma rowStrict_shape:
  "rowStrict clock ci di qi ir = [] \<or>
   (ci < length (splitOn TAB (snd ir)) \<and> di < length (splitOn TAB (snd ir)) \<and>
    qi < length (splitOn TAB (snd ir)) \<and>
    (\<exists>q. 0 < q \<and> rowStrict clock ci di qi ir =
       [\<lparr>id_label = labelId clock (fst ir), code = trim (splitOn TAB (snd ir) ! ci),
         description = sanitizeString (trim (splitOn TAB (snd ir) ! di)), quantity = q\<rparr>]))"
  by (simp add: rowStrict_def Let_def split: option.split)

lemma rowLenient_shape:
  "rowLenient clock ci di qi ir = [] \<or>
   (ci < length (splitOn TAB (snd ir)) \<and> di < length (splitOn TAB (snd ir)) \<and>
    qi < length (splitOn TAB (snd ir)) \<and>
    (\<exists>q. rowLenient clock ci di qi ir =
       [\<lparr>id_label = labelId clock (fst ir), code = trim (splitOn TAB (snd ir) ! ci),
         description = sanitizeString (trim (splitOn TAB (snd ir) ! di)), quantity = q\<rparr>]))"
  by (simp add: rowLenient_def Let_def)

lemma processRow_shape:
  "processRow policy clock ci di qi ir = [] \<or>
   (ci < length (splitOn TAB (snd ir)) \<and> di < length (splitOn TAB (snd ir)) \<and>
    qi < length (splitOn TAB (snd ir)) \<and>
    (\<exists>q. processRow policy clock ci di qi ir =
       [\<lparr>id_label = labelId clock (fst ir), code = trim (splitOn TAB (snd ir) ! ci),
         description = sanitizeString (trim (splitOn TAB (snd ir) ! di)), quantity = q\<rparr>]))"
proof (cases policy)
  case Strict
  with rowStrict_shape [of clock ci di qi ir] show ?thesis
    by (simp add: processRow_def) blast
next
  case Lenient
  with rowLenient_shape [of clock ci di qi ir] show ?thesis
    by (simp add: processRow_def)
qed

lemma processRow_member:
  assumes "l \<in> set (processRow policy clock ci di qi ir)"
  shows "code l = trim (splitOn TAB (snd ir) ! ci) \<and>
         description l = sanitizeString (trim (splitOn TAB (snd ir) ! di))"
proof -
  from processRow_shape [of policy clock ci di qi ir] assms
  obtain q where "processRow policy clock ci di qi ir =
       [\<lparr>id_label = labelId clock (fst ir), code = trim (splitOn TAB (snd ir) ! ci),
         description = sanitizeString (trim (splitOn TAB (snd ir) ! di)), quantity = q\<rparr>]"
    by fastforce
  with assms show ?thesis by simp
qed

lemma sanitizeString_visible: "c \<in> set (sanitizeString s) \<Longrightarrow> \<not> isInvisible c"
  by (auto simp: sanitizeString_def split: if_splits)

lemma parseTable_member:
  assumes "parseTable policy clock pasted = Added ls" "l \<in> set ls"
  shows "\<exists>ir \<in> set (enumerate 0 (tl (tableRows (trim pasted)))).
           l \<in> set (processRow policy clock
                  (nat (indexOf (tableHeaders (tableRows (trim pasted))) CODE_HEADER))
                  (nat (indexOf (tableHeaders (tableRows (trim pasted))) DESC_HEADER))
                  (nat (indexOf (tableHeaders (tableRows (trim pasted))) QTY_HEADER)) ir)"
proof -
  have r: "2 \<le> length (tableRows (trim pasted))"
    using assms(1) by (rule parseTable_Added_rows)
  show ?thesis
    using assms unfolding parseTable_rows [OF r] Let_def
    by (auto split: if_splits)
qed

section \<open>The table parser\<close>

text \<open>
  Claim C6. Once the pasted text has its two non-empty rows, the parser reports the
  missing column for the first required header that the header row lacks, looking for
  the code header first, then the description header, then the quantity header; the
  record table of the end-to-end scenario with its quantity header renamed fails with
  the missing column "Cantidad de Etiquetas".
\<close>

theorem missing_column_order:
  assumes "2 \<le> length (tableRows (trim pasted))"
  shows "(CODE_HEADER \<notin> set (tableHeaders (tableRows (trim pasted))) \<longrightarrow>
            parseTable policy clock pasted = Failed (MissingColumn CODE_HEADER)) \<and>
         (CODE_HEADER \<in> set (tableHeaders (tableRows (trim pasted))) \<and>
          DESC_HEADER \<notin> set (tableHeaders (tableRows (trim pasted))) \<longrightarrow>
            parseTable policy clock pasted = Failed (MissingColumn DESC_HEADER)) \<and>
         (CODE_HEADER \<in> set (tableHeaders (tableRows (trim pasted))) \<and>
          DESC_HEADER \<in> set (tableHeaders (tableRows (trim pasted))) \<and>
          QTY_HEADER \<notin> set (tableHeaders (tableRows (trim pasted))) \<longrightarrow>
            parseTable policy clock pasted = Failed (MissingColumn QTY_HEADER))"
  unfolding parseTable_rows [OF assms] Let_def
  by (simp add: indexOf_none)

theorem missing_column_order_witness:
  "2 \<le> length (tableRows (trim (sampleTable (ascii ''Cantidad'') (ascii ''3'')))) \<and>
   CODE_HEADER \<in> set (tableHeaders (tableRows (trim (sampleTable (ascii ''Cantidad'') (ascii ''3''))))) \<and>
   DESC_HEADER \<in> set (tableHeaders (tableRows (trim (sampleTable (ascii ''Cantidad'') (ascii ''3''))))) \<and>
   QTY_HEADER \<notin> set (tableHeaders (tableRows (trim (sampleTable (ascii ''Cantidad'') (ascii ''3''))))) \<and>
   parseTable Strict sampleClock (sampleTable (ascii ''Cantidad'') (ascii ''3'')) =
     Failed (MissingColumn QTY_HEADER) \<and>
   parseTable Lenient sampleClock (sampleTable (ascii ''Cantidad'') (ascii ''3'')) =
     Failed (MissingColumn QTY_HEADER)"
proof -
  have r: "2 \<le> length (tableRows (trim (sampleTable (ascii ''Cantidad'') (ascii ''3''))))"
    by code_simp
  have h: "CODE_HEADER \<in> set (tableHeaders (tableRows (trim (sampleTable (ascii ''Cantidad'') (ascii ''3''))))) \<and>
   DESC_HEADER \<in> set (tableHeaders (tableRows (trim (sampleTable (ascii ''Cantidad'') (ascii ''3''))))) \<and>
   QTY_HEADER \<notin> set (tableHeaders (tableRows (trim (sampleTable (ascii ''Cantidad'') (ascii ''3'')))))"
    by code_simp
  from r h missing_column_order [OF r, of Strict sampleClock]
    missing_column_order [OF r, of Lenient sampleClock]
  show ?thesis by blast
qed

text \<open>
  Claim C7, as the specification states it, fails: a text area holding only white space
  has no non-empty row, yet the handler returns before it sets any error.
\<close>

theorem blank_input_is_ignored:
  "length (tableRows (trim (ascii ''   ''))) < 2 \<and>
   parseTable Strict sampleClock (ascii ''   '') \<noteq> Failed InsufficientRows \<and>
   parseTable Lenient sampleClock (ascii ''   '') \<noteq> Failed InsufficientRows \<and>
   error (handleProcessData Strict sampleClock (emptyState (ascii ''   ''))) = None"
  by code_simp

text \<open>
  Claim C7, amended. A pasted text that is empty once trimmed is ignored without any
  error; a pasted text that is not, and has fewer than two non-empty rows, fails with
  the insufficient-rows error, which the handler stores in the component state.
\<close>

theorem insufficient_rows:
  "(trim pasted = [] \<longrightarrow> parseTable policy clock pasted = Ignored) \<and>
   (trim pasted \<noteq> [] \<and> length (tableRows (trim pasted)) < 2 \<longrightarrow>
      parseTable policy clock pasted = Failed InsufficientRows \<and>
      error (handleProcessData policy clock (st\<lparr>pasteArea := pasted\<rparr>)) = Some InsufficientRows)"
proof -
  have "trim pasted \<noteq> [] \<Longrightarrow> pasted \<noteq> []" using trim_Nil by auto
  then show ?thesis
    by (auto simp: parseTable_def handleProcessData_def Let_def)
qed

theorem insufficient_rows_witness:
  "trim [] = [] \<and> parseTable Strict sampleClock [] = Ignored \<and>
   trim (ascii ''12345'') \<noteq> [] \<and> length (tableRows (trim (ascii ''12345''))) < 2 \<and>
   parseTable Strict sampleClock (ascii ''12345'') = Failed InsufficientRows \<and>
   error (handleProcessData Strict sampleClock ((emptyState [])\<lparr>pasteArea := ascii ''12345''\<rparr>))
     = Some InsufficientRows"
proof -
  have a: "trim ([]::jsstring) = []" by code_simp
  have b: "trim (ascii ''12345'') \<noteq> [] \<and> length (tableRows (trim (ascii ''12345''))) < 2"
    by code_simp
  from a b insufficient_rows [of "[]" Strict sampleClock "emptyState []"]
    insufficient_rows [of "ascii ''12345''" Strict sampleClock "emptyState []"]
  show ?thesis by blast
qed

text \<open>
  Under either quantity policy, the description of every record the parser produces
  contains none of the code units U+200B, U+200C, U+200D and U+FEFF: it is the
  description field of a data row, trimmed and then stripped of these characters.
\<close>

lemma description_has_no_invisible_characters:
  assumes "parseTable policy clock pasted = Added ls" "l \<in> set ls"
  shows "0x200B \<notin> set (description l) \<and> 0x200C \<notin> set (description l) \<and>
         0x200D \<notin> set (description l) \<and> 0xFEFF \<notin> set (description l) \<and>
         (\<exists>rowStr \<in> set (tl (tableRows (trim pasted))).
            description l = sanitizeString (trim (splitOn TAB rowStr !
              nat (indexOf (tableHeaders (tableRows (trim pasted))) DESC_HEADER))))"
proof -
  from parseTable_member [OF assms] obtain ir
    where ir: "ir \<in> set (enumerate 0 (tl (tableRows (trim pasted))))"
      and l: "l \<in> set (processRow policy clock
                  (nat (indexOf (tableHeaders (tableRows (trim pasted))) CODE_HEADER))
                  (nat (indexOf (tableHeaders (tableRows (trim pasted))) DESC_HEADER))
                  (nat (indexOf (tableHeaders (tableRows (trim pasted))) QTY_HEADER)) ir)"
    by blast
  from processRow_member [OF l]
  have d: "description l = sanitizeString (trim (splitOn TAB (snd ir) !
              nat (indexOf (tableHeaders (tableRows (trim pasted))) DESC_HEADER)))"
    by simp
  from ir have i: "fst ir < length (tl (tableRows (trim pasted)))"
    and n: "tl (tableRows (trim pasted)) ! fst ir = snd ir"
    by (simp_all add: in_set_enumerate_eq)
  from nth_mem [OF i] have "snd ir \<in> set (tl (tableRows (trim pasted)))"
    by (simp only: n)
  with d have ex: "\<exists>rowStr \<in> set (tl (tableRows (trim pasted))).
            description l = sanitizeString (trim (splitOn TAB rowStr !
              nat (indexOf (tableHeaders (tableRows (trim pasted))) DESC_HEADER)))"
    by blast
  have inv: "isInvisible 0x200B" "isInvisible 0x200C" "isInvisible 0x200D" "isInvisible 0xFEFF"
    by (simp_all add: isInvisible_def)
  have "\<And>c. c \<in> set (description l) \<Longrightarrow> \<not> isInvisible c"
    unfolding d by (rule sanitizeString_visible)
  with inv ex show ?thesis by blast
qed

lemma description_has_no_invisible_characters_example:
  "parseTable Strict sampleClock invisibleTable =
     Added [\<lparr>id_label = ascii ''label-17-0'', code = ascii ''778'',
             description = ascii ''Alambre 17/15'', quantity = 2\<rparr>] \<and>
   0x200B \<notin> set (ascii ''Alambre 17/15'') \<and> 0x200C \<notin> set (ascii ''Alambre 17/15'') \<and>
   0x200D \<notin> set (ascii ''Alambre 17/15'') \<and> 0xFEFF \<notin> set (ascii ''Alambre 17/15'')"
proof -
  have p: "parseTable Strict sampleClock invisibleTable =
     Added [\<lparr>id_label = ascii ''label-17-0'', code = ascii ''778'',
             description = ascii ''Alambre 17/15'', quantity = 2\<rparr>]"
    by code_simp
  from description_has_no_invisible_characters [OF p, of "\<lparr>id_label = ascii ''label-17-0'', code = ascii ''778'',
             description = ascii ''Alambre 17/15'', quantity = 2\<rparr>"] p
  show ?thesis by simp
qed

text \<open>
  Claim C8 does not hold of the code in full. The stored description never contains one
  of the four invisible characters, but it is not always trimmed: the field is trimmed
  first and stripped afterwards, so white space that a zero-width character shields from
  the trim is stored. Under either policy the description field
  \<open>" <U+200B> Alambre <U+200B> "\<close> is stored as \<open>" Alambre "\<close>.
\<close>

theorem shielded_white_space_is_stored:
  "parseTable Strict sampleClock shieldedTable = Added [shieldedRecord] \<and>
   parseTable Lenient sampleClock shieldedTable = Added [shieldedRecord] \<and>
   description shieldedRecord = ascii '' Alambre '' \<and>
   trim (description shieldedRecord) \<noteq> description shieldedRecord"
  by code_simp

lemma processRow_fields:
  "map recordFields (processRow policy clock1 ci di qi ir) =
   map recordFields (processRow policy clock2 ci di qi ir)"
proof (cases policy)
  case Strict
  then show ?thesis
    by (simp add: processRow_def rowStrict_def Let_def recordFields_def split: option.split)
next
  case Lenient
  then show ?thesis
    by (simp add: processRow_def rowLenient_def Let_def recordFields_def)
qed

lemma newLabels_fields:
  "map recordFields (concat (map (processRow policy clock1 ci di qi) irs)) =
   map recordFields (concat (map (processRow policy clock2 ci di qi) irs))"
  by (induction irs) (simp_all add: processRow_fields)

lemma parseTable_fields:
  "outcomeFields (parseTable policy clock1 pasted) =
   outcomeFields (parseTable policy clock2 pasted)"
proof (cases "2 \<le> length (tableRows (trim pasted))")
  case True
  let ?h = "tableHeaders (tableRows (trim pasted))"
  let ?n = "\<lambda>clock. concat (map (processRow policy clock (nat (indexOf ?h CODE_HEADER))
                        (nat (indexOf ?h DESC_HEADER)) (nat (indexOf ?h QTY_HEADER)))
                        (enumerate 0 (tl (tableRows (trim pasted)))))"
  have f: "map recordFields (?n clock1) = map recordFields (?n clock2)"
    by (rule newLabels_fields)
  then have "length (map recordFields (?n clock1)) = length (map recordFields (?n clock2))"
    by (rule arg_cong)
  then have e: "(?n clock1 = []) = (?n clock2 = [])"
    by (simp only: length_map) (metis length_0_conv)
  show ?thesis
    unfolding parseTable_rows [OF True] Let_def
    using f e by simp
next
  case False
  then show ?thesis by (simp add: parseTable_def Let_def)
qed

lemma handleProcessData_labels:
  "parseTable policy clock pasted = Added new \<Longrightarrow>
   labels (handleProcessData policy clock (st\<lparr>pasteArea := pasted\<rparr>)) = labels st @ new"
  by (simp add: handleProcessData_def)

text \<open>
  Claim C9. What a run of the parser yields, identifiers apart, depends on the pasted
  text alone: not on the clock that the identifiers are built from, and not on the
  records already in the list. Two runs on the same valid text therefore append the same
  codes, descriptions and quantities twice, in the same order.
\<close>

theorem parse_is_deterministic:
  "outcomeFields (parseTable policy clock1 pasted) =
     outcomeFields (parseTable policy clock2 pasted) \<and>
   (parseTable policy clock1 pasted = Added new \<longrightarrow>
      map recordFields
        (labels (handleProcessData policy clock2
           ((handleProcessData policy clock1 (st\<lparr>pasteArea := pasted\<rparr>))\<lparr>pasteArea := pasted\<rparr>))) =
      map recordFields (labels st) @ map recordFields new @ map recordFields new)"
proof (intro conjI impI)
  show "outcomeFields (parseTable policy clock1 pasted) =
        outcomeFields (parseTable policy clock2 pasted)"
    by (rule parseTable_fields)
next
  assume a: "parseTable policy clock1 pasted = Added new"
  with parseTable_fields [of policy clock1 pasted clock2]
  obtain new2 where b: "parseTable policy clock2 pasted = Added new2"
    and f: "map recordFields new2 = map recordFields new"
    by (cases "parseTable policy clock2 pasted") auto
  let ?st1 = "handleProcessData policy clock1 (st\<lparr>pasteArea := pasted\<rparr>)"
  have "labels ?st1 = labels st @ new" using a by (rule handleProcessData_labels)
  moreover have "labels (handleProcessData policy clock2 (?st1\<lparr>pasteArea := pasted\<rparr>)) =
      labels ?st1 @ new2"
    using b by (rule handleProcessData_labels)
  ultimately show "map recordFields
        (labels (handleProcessData policy clock2 (?st1\<lparr>pasteArea := pasted\<rparr>))) =
      map recordFields (labels st) @ map recordFields new @ map recordFields new"
    using f by simp
qed

theorem parse_is_deterministic_witness:
  "parseTable Strict sampleClock (sampleTable QTY_HEADER (ascii ''3'')) = Added [sampleLabel 3] \<and>
   map recordFields
     (labels (handleProcessData Strict laterClock
        ((handleProcessData Strict sampleClock
            ((emptyState [])\<lparr>pasteArea := sampleTable QTY_HEADER (ascii ''3'')\<rparr>))
           \<lparr>pasteArea := sampleTable QTY_HEADER (ascii ''3'')\<rparr>))) =
   [recordFields (sampleLabel 3), recordFields (sampleLabel 3)]"
proof -
  have a: "parseTable Strict sampleClock (sampleTable QTY_HEADER (ascii ''3'')) = Added [sampleLabel 3]"
    by code_simp
  have e: "labels (emptyState []) = []" by (simp add: emptyState_def)
  from a e parse_is_deterministic [of Strict sampleClock "sampleTable QTY_HEADER (ascii ''3'')"
       laterClock "[sampleLabel 3]" "emptyState []"]
  show ?thesis by simp
qed

text \<open>
  Claim C3 does not hold of the lenient parser: a data row whose quantity field reads
  \<open>-5\<close> yields a record with quantity \<open>-5\<close>, because the lenient variant keeps whatever
  number \<^verbatim>\<open>parseInt\<close> reads and never compares it with zero.
\<close>

theorem lenient_parse_negative_quantity:
  "parseTable Lenient sampleClock (sampleTable QTY_HEADER (ascii ''-5'')) =
     Added [sampleLabel (- 5)] \<and> quantity (sampleLabel (- 5)) < 0"
  by code_simp

text \<open>
  The other three sources of records do keep the quantity from going negative: the strict
  parser only produces quantities of at least 1, the manual-entry dialog rejects a
  negative quantity, and the quantity editor only accepts a quantity greater than zero.
\<close>

lemma strict_quantity_positive:
  assumes "parseTable Strict clock pasted = Added ls" "l \<in> set ls"
  shows "1 \<le> quantity l"
proof -
  from parseTable_member [OF assms] obtain ir ci di qi
    where l: "l \<in> set (processRow Strict clock ci di qi ir)" by blast
  from rowStrict_shape [of clock ci di qi ir] l show ?thesis
    by (auto simp: processRow_def)
qed

lemma handleAdd_quantity:
  assumes "\<forall>l \<in> set currentLabels. 0 \<le> quantity l"
    and "handleAdd now c d q currentLabels = Inr ls"
  shows "\<forall>l \<in> set ls. 0 \<le> quantity l"
  using assms by (auto simp: handleAdd_def split: if_splits option.splits)

lemma cardOnChange_quantity:
  assumes "\<forall>l \<in> set currentLabels. 0 \<le> quantity l"
  shows "\<forall>l \<in> set (cardOnChange label typed currentLabels). 0 \<le> quantity l"
  using assms by (auto simp: cardOnChange_def handleQuantityChange_def split: option.splits)

section \<open>Facts about numbers\<close>

lemma digit_word:
  assumes "0 \<le> k" "k < 10"
  shows "isDigit (word_of_int (48 + k)) \<and> uint (word_of_int (48 + k) :: 16 word) = 48 + k"
proof -
  from assms have "k = 0 \<or> k = 1 \<or> k = 2 \<or> k = 3 \<or> k = 4 \<or> k = 5 \<or> k = 6 \<or> k = 7 \<or>
      k = 8 \<or> k = 9" by arith
  then show ?thesis by (auto simp: isDigit_def)
qed

lemma digitsValue_snoc:
  "digitsValue (ds @ [c]) = 10 * digitsValue ds + (uint c - 48)"
  by (simp add: digitsValue_def)

lemma decimal_digits:
  "0 \<le> n \<Longrightarrow>
     decimal n \<noteq> [] \<and> list_all isDigit (decimal n) \<and> digitsValue (decimal n) = n"
proof (induction n rule: decimal.induct)
  case (1 n)
  show ?case
  proof (cases "n < 10")
    case True
    with "1.prems" digit_word [of n] show ?thesis
      by (simp add: decimal.simps [of n] digitsValue_def)
  next
    case False
    with "1.prems" have "0 \<le> n div 10" by simp
    with "1.IH" False have ih: "decimal (n div 10) \<noteq> []"
      "list_all isDigit (decimal (n div 10))" "digitsValue (decimal (n div 10)) = n div 10"
      by simp_all
    have "0 \<le> n mod 10" "n mod 10 < 10" by simp_all
    from digit_word [OF this] ih False show ?thesis
      by (simp add: decimal.simps [of n] digitsValue_snoc)
  qed
qed

lemma roundDouble_small: "\<bar>i\<bar> < 2 ^ 53 \<Longrightarrow> roundDouble i = i"
  by (simp add: roundDouble_def)

lemma copies_in_range:
  assumes "1 < q" "q \<le> 2 ^ 53"
  shows "showNumber (jsMinus q 1) = Some (decimal (q - 1))"
proof -
  from assms have "\<bar>q - 1\<bar> < 2 ^ 53" by simp
  then have "jsMinus q 1 = q - 1" by (simp add: jsMinus_def roundDouble_small)
  with assms show ?thesis by (simp add: showNumber_def)
qed

section \<open>The encoders\<close>

lemma splitBlocks_append:
  "splitBlocks (xs @ l # ys) = splitBlocks xs @ splitBlocksOf l @ splitBlocks ys"
  by (simp add: splitBlocks_def)

lemma splitBlocksOf_none: "quantity l \<le> 0 \<Longrightarrow> splitBlocksOf l = []"
  by (simp add: splitBlocksOf_def Let_def)

lemmas tag_defs = STX_def ETX_def ESC_def LF_def US_def ETB_def CAN_def CRLF_def DQUOTE_def
  fieldLine_def ascii_def

text \<open>
  Claim C1, as the specification states it, fails for the quantities above \<open>2^53\<close>: a
  quantity is a double, so the subtraction \<^verbatim>\<open>qty - 1\<close> is rounded. The strict parser
  reads the quantity \<open>2^53 + 2\<close> from the pasted digits, and for that record the main
  block requests \<open>2^53\<close> copies, two less than the quantity and not one.
\<close>

theorem split_main_block_rounds:
  "parseTable Strict sampleClock hugeTable = Added [sampleLabel 9007199254740994] \<and>
   splitBlocksOf (sampleLabel 9007199254740994) =
     [Some (ascii ''<STX><ESC>E1<CAN><ETX>'' @ [0x0D, 0x0A] @
        ascii ''<STX><ESC>F'' @ [0x22] @ ascii ''BR0'' @ [0x22] @ ascii ''<LF>12345<ETX>'' @ [0x0D, 0x0A] @
        ascii ''<STX><ESC>F'' @ [0x22] @ ascii ''BR1'' @ [0x22] @ ascii ''<LF>12345<ETX>'' @ [0x0D, 0x0A] @
        ascii ''<STX><ESC>F'' @ [0x22] @ ascii ''BR2'' @ [0x22] @ ascii ''<LF>12345<ETX>'' @ [0x0D, 0x0A] @
        ascii ''<STX><ESC>F'' @ [0x22] @ ascii ''TX3'' @ [0x22] @ ascii ''<LF>Sacos de alimento<ETX>'' @ [0x0D, 0x0A] @
        ascii ''<STX><ESC>F'' @ [0x22] @ ascii ''TX4'' @ [0x22] @ ascii ''<LF>balanceado premium para bovinos<ETX>'' @ [0x0D, 0x0A] @
        ascii ''<STX><ESC>F'' @ [0x22] @ ascii ''TX5'' @ [0x22] @ ascii ''<LF>Sacos de alimento<ETX>'' @ [0x0D, 0x0A] @
        ascii ''<STX><ESC>F'' @ [0x22] @ ascii ''TX6'' @ [0x22] @ ascii ''<LF>balanceado premium para bovinos<ETX>'' @ [0x0D, 0x0A] @
        ascii ''<STX><ESC>F'' @ [0x22] @ ascii ''TX7'' @ [0x22] @ ascii ''<LF>Sacos de alimento<ETX>'' @ [0x0D, 0x0A] @
        ascii ''<STX><ESC>F'' @ [0x22] @ ascii ''TX8'' @ [0x22] @ ascii ''<LF>balanceado premium para bovinos<ETX>'' @ [0x0D, 0x0A] @
        ascii ''<STX><US>9007199254740992<ETX>'' @ [0x0D, 0x0A] @
        ascii ''<STX><ETB><ETX>'' @ [0x0D, 0x0A]),
      Some (ascii ''<STX><ESC>E1<CAN><ETX>'' @ [0x0D, 0x0A] @
        ascii ''<STX><ESC>F'' @ [0x22] @ ascii ''BR0'' @ [0x22] @ ascii ''<LF>12345<ETX>'' @ [0x0D, 0x0A] @
        ascii ''<STX><ESC>F'' @ [0x22] @ ascii ''TX3'' @ [0x22] @ ascii ''<LF>Sacos de alimento<ETX>'' @ [0x0D, 0x0A] @
        ascii ''<STX><ESC>F'' @ [0x22] @ ascii ''TX4'' @ [0x22] @ ascii ''<LF>balanceado premium para bovinos<ETX>'' @ [0x0D, 0x0A] @
        ascii ''<STX><US>1<ETX>'' @ [0x0D, 0x0A] @
        ascii ''<STX><ETB><ETX>'' @ [0x0D, 0x0A])] \<and>
   digitsValue (ascii ''9007199254740992'') \<noteq> quantity (sampleLabel 9007199254740994) - 1"
  by code_simp

text \<open>
  Claim C1, amended. Under the split policy a record with quantity 5 gives exactly two
  blocks: first the main block, which cancels the field buffer, assigns the record's code
  to the three barcode fields and the two lines of \<open>splitDescription\<close> to the three pairs
  of text fields, requests 4 copies and ends the block; then the residual block, which
  does the same with one barcode field and one pair of text fields and requests 1 copy.
  For every quantity above 1 and up to \<open>2^53\<close> the two blocks are the same but for the
  main block's copies, which are the decimal digits of the quantity less one. For
  quantity 1 there is the main block alone, requesting 1 copy. These are the record's
  blocks inside the \<open>blocks\<close> array of any list that contains it.
\<close>

theorem split_policy_blocks:
  fixes l :: LabelData
  defines "c \<equiv> code l"
    and "a \<equiv> fst (splitDescription (description l) 25)"
    and "b \<equiv> snd (splitDescription (description l) 25)"
  defines "main \<equiv> \<lambda>copies.
      ascii ''<STX><ESC>E1<CAN><ETX>'' @ [0x0D, 0x0A] @
      ascii ''<STX><ESC>F'' @ [0x22] @ ascii ''BR0'' @ [0x22] @ ascii ''<LF>'' @ c @ ascii ''<ETX>'' @ [0x0D, 0x0A] @
      ascii ''<STX><ESC>F'' @ [0x22] @ ascii ''BR1'' @ [0x22] @ ascii ''<LF>'' @ c @ ascii ''<ETX>'' @ [0x0D, 0x0A] @
      ascii ''<STX><ESC>F'' @ [0x22] @ ascii ''BR2'' @ [0x22] @ ascii ''<LF>'' @ c @ ascii ''<ETX>'' @ [0x0D, 0x0A] @
      ascii ''<STX><ESC>F'' @ [0x22] @ ascii ''TX3'' @ [0x22] @ ascii ''<LF>'' @ a @ ascii ''<ETX>'' @ [0x0D, 0x0A] @
      ascii ''<STX><ESC>F'' @ [0x22] @ ascii ''TX4'' @ [0x22] @ ascii ''<LF>'' @ b @ ascii ''<ETX>'' @ [0x0D, 0x0A] @
      ascii ''<STX><ESC>F'' @ [0x22] @ ascii ''TX5'' @ [0x22] @ ascii ''<LF>'' @ a @ ascii ''<ETX>'' @ [0x0D, 0x0A] @
      ascii ''<STX><ESC>F'' @ [0x22] @ ascii ''TX6'' @ [0x22] @ ascii ''<LF>'' @ b @ ascii ''<ETX>'' @ [0x0D, 0x0A] @
      ascii ''<STX><ESC>F'' @ [0x22] @ ascii ''TX7'' @ [0x22] @ ascii ''<LF>'' @ a @ ascii ''<ETX>'' @ [0x0D, 0x0A] @
      ascii ''<STX><ESC>F'' @ [0x22] @ ascii ''TX8'' @ [0x22] @ ascii ''<LF>'' @ b @ ascii ''<ETX>'' @ [0x0D, 0x0A] @
      ascii ''<STX><US>'' @ copies @ ascii ''<ETX>'' @ [0x0D, 0x0A] @
      ascii ''<STX><ETB><ETX>'' @ [0x0D, 0x0A]"
    and "residual \<equiv>
      ascii ''<STX><ESC>E1<CAN><ETX>'' @ [0x0D, 0x0A] @
      ascii ''<STX><ESC>F'' @ [0x22] @ ascii ''BR0'' @ [0x22] @ ascii ''<LF>'' @ c @ ascii ''<ETX>'' @ [0x0D, 0x0A] @
      ascii ''<STX><ESC>F'' @ [0x22] @ ascii ''TX3'' @ [0x22] @ ascii ''<LF>'' @ a @ ascii ''<ETX>'' @ [0x0D, 0x0A] @
      ascii ''<STX><ESC>F'' @ [0x22] @ ascii ''TX4'' @ [0x22] @ ascii ''<LF>'' @ b @ ascii ''<ETX>'' @ [0x0D, 0x0A] @
      ascii ''<STX><US>1<ETX>'' @ [0x0D, 0x0A] @
      ascii ''<STX><ETB><ETX>'' @ [0x0D, 0x0A]"
  shows "(quantity l = 5 \<longrightarrow> splitBlocksOf l = [Some (main (ascii ''4'')), Some residual]) \<and>
         (1 < quantity l \<and> quantity l \<le> 2 ^ 53 \<longrightarrow>
            (\<exists>copies. copies \<noteq> [] \<and> list_all isDigit copies \<and>
               digitsValue copies = quantity l - 1 \<and>
               splitBlocksOf l = [Some (main copies), Some residual])) \<and>
         (quantity l = 1 \<longrightarrow> splitBlocksOf l = [Some (main (ascii ''1''))]) \<and>
         splitBlocks (xs @ l # ys) = splitBlocks xs @ splitBlocksOf l @ splitBlocks ys"
proof -
  have M: "\<And>q copies. showNumber q = Some copies \<Longrightarrow>
             buildMainBlock c a b q = Some (main copies)"
    by (simp add: buildMainBlock_def main_def tag_defs)
  have R: "buildResidualBlock c a b = residual"
    by (simp add: buildResidualBlock_def residual_def tag_defs)
  have four: "showNumber (jsMinus 5 1) = Some (ascii ''4'')" by code_simp
  have one: "showNumber 1 = Some (ascii ''1'')" by code_simp
  have A: "quantity l = 5 \<longrightarrow> splitBlocksOf l = [Some (main (ascii ''4'')), Some residual]"
    using M [OF four] R
    by (simp add: splitBlocksOf_def Let_def defaultMaxLength_def c_def a_def b_def)
  have C: "quantity l = 1 \<longrightarrow> splitBlocksOf l = [Some (main (ascii ''1''))]"
    using M [OF one]
    by (simp add: splitBlocksOf_def Let_def defaultMaxLength_def c_def a_def b_def)
  have B: "1 < quantity l \<and> quantity l \<le> 2 ^ 53 \<longrightarrow>
            (\<exists>copies. copies \<noteq> [] \<and> list_all isDigit copies \<and>
               digitsValue copies = quantity l - 1 \<and>
               splitBlocksOf l = [Some (main copies), Some residual])"
  proof
    assume q: "1 < quantity l \<and> quantity l \<le> 2 ^ 53"
    then have s: "showNumber (jsMinus (quantity l) 1) = Some (decimal (quantity l - 1))"
      by (simp add: copies_in_range)
    from q have "0 \<le> quantity l - 1" by simp
    from decimal_digits [OF this]
    have d: "decimal (quantity l - 1) \<noteq> []" "list_all isDigit (decimal (quantity l - 1))"
      "digitsValue (decimal (quantity l - 1)) = quantity l - 1"
      by simp_all
    have "splitBlocksOf l = [Some (main (decimal (quantity l - 1))), Some residual]"
      using M [OF s] R q
      by (simp add: splitBlocksOf_def Let_def defaultMaxLength_def c_def a_def b_def)
    with d show "\<exists>copies. copies \<noteq> [] \<and> list_all isDigit copies \<and>
               digitsValue copies = quantity l - 1 \<and>
               splitBlocksOf l = [Some (main copies), Some residual]"
      by blast
  qed
  from A B C splitBlocks_append show ?thesis by blast
qed

theorem split_policy_blocks_witness:
  "quantity (sampleLabel 5) = 5 \<and> 1 < quantity (sampleLabel 5) \<and>
   quantity (sampleLabel 5) \<le> 2 ^ 53 \<and>
   splitBlocksOf (sampleLabel 5) =
     [Some (ascii ''<STX><ESC>E1<CAN><ETX>'' @ [0x0D, 0x0A] @
        ascii ''<STX><ESC>F'' @ [0x22] @ ascii ''BR0'' @ [0x22] @ ascii ''<LF>12345<ETX>'' @ [0x0D, 0x0A] @
        ascii ''<STX><ESC>F'' @ [0x22] @ ascii ''BR1'' @ [0x22] @ ascii ''<LF>12345<ETX>'' @ [0x0D, 0x0A] @
        ascii ''<STX><ESC>F'' @ [0x22] @ ascii ''BR2'' @ [0x22] @ ascii ''<LF>12345<ETX>'' @ [0x0D, 0x0A] @
        ascii ''<STX><ESC>F'' @ [0x22] @ ascii ''TX3'' @ [0x22] @ ascii ''<LF>Sacos de alimento<ETX>'' @ [0x0D, 0x0A] @
        ascii ''<STX><ESC>F'' @ [0x22] @ ascii ''TX4'' @ [0x22] @ ascii ''<LF>balanceado premium para bovinos<ETX>'' @ [0x0D, 0x0A] @
        ascii ''<STX><ESC>F'' @ [0x22] @ ascii ''TX5'' @ [0x22] @ ascii ''<LF>Sacos de alimento<ETX>'' @ [0x0D, 0x0A] @
        ascii ''<STX><ESC>F'' @ [0x22] @ ascii ''TX6'' @ [0x22] @ ascii ''<LF>balanceado premium para bovinos<ETX>'' @ [0x0D, 0x0A] @
        ascii ''<STX><ESC>F'' @ [0x22] @ ascii ''TX7'' @ [0x22] @ ascii ''<LF>Sacos de alimento<ETX>'' @ [0x0D, 0x0A] @
        ascii ''<STX><ESC>F'' @ [0x22] @ ascii ''TX8'' @ [0x22] @ ascii ''<LF>balanceado premium para bovinos<ETX>'' @ [0x0D, 0x0A] @
        ascii ''<STX><US>4<ETX>'' @ [0x0D, 0x0A] @
        ascii ''<STX><ETB><ETX>'' @ [0x0D, 0x0A]),
      Some (ascii ''<STX><ESC>E1<CAN><ETX>'' @ [0x0D, 0x0A] @
        ascii ''<STX><ESC>F'' @ [0x22] @ ascii ''BR0'' @ [0x22] @ ascii ''<LF>12345<ETX>'' @ [0x0D, 0x0A] @
        ascii ''<STX><ESC>F'' @ [0x22] @ ascii ''TX3'' @ [0x22] @ ascii ''<LF>Sacos de alimento<ETX>'' @ [0x0D, 0x0A] @
        ascii ''<STX><ESC>F'' @ [0x22] @ ascii ''TX4'' @ [0x22] @ ascii ''<LF>balanceado premium para bovinos<ETX>'' @ [0x0D, 0x0A] @
        ascii ''<STX><US>1<ETX>'' @ [0x0D, 0x0A] @
        ascii ''<STX><ETB><ETX>'' @ [0x0D, 0x0A])] \<and>
   quantity (sampleLabel 1) = 1 \<and>
   length (splitBlocksOf (sampleLabel 1)) = 1"
proof -
  have s: "splitDescription bovinosDescription 25 =
      (ascii ''Sacos de alimento'', ascii ''balanceado premium para bovinos'')"
    by code_simp
  have f: "\<And>q. quantity (sampleLabel q) = q" "\<And>q. code (sampleLabel q) = ascii ''12345''"
    "\<And>q. description (sampleLabel q) = bovinosDescription"
    by (simp_all add: sampleLabel_def)
  note five = split_policy_blocks [of "sampleLabel 5" "[]" "[]", THEN conjunct1]
  note one = split_policy_blocks [of "sampleLabel 1" "[]" "[]",
      THEN conjunct2, THEN conjunct2, THEN conjunct1]
  from five one show ?thesis by (simp add: f s ascii_def)
qed

lemma tripleReach_quantity:
  "tripleReach st \<Longrightarrow> \<forall>l \<in> set (labels st). 1 \<le> quantity l"
proof (induction rule: tripleReach.induct)
  case start
  then show ?case by (simp add: initialState_def)
next
  case (typed st v)
  then show ?case by (simp add: handleInputChange_def)
next
  case (processed st clock)
  show ?case
  proof (cases "parseTable Strict clock (pasteArea st)")
    case Ignored
    with processed.IH show ?thesis by (simp add: handleProcessData_def)
  next
    case (Failed e)
    with processed.IH show ?thesis by (simp add: handleProcessData_def)
  next
    case (Added new)
    then have "\<forall>l \<in> set new. 1 \<le> quantity l"
      using strict_quantity_positive by blast
    with Added processed.IH show ?thesis by (auto simp: handleProcessData_def)
  qed
next
  case (removed st ident)
  then show ?case by (simp add: handleRemoveLabel_def)
next
  case (cleared st)
  then show ?case by (simp add: clearAll_def)
next
  case (saved st)
  then show ?case by (simp add: downloaded_def)
qed

text \<open>
  The triple-barcode encoder itself has one block for every record of its list; it is
  the strict parser in front of it that keeps a quantity of zero out of the list.
\<close>

lemma tripleBlocks_length: "length (tripleBlocks ls) = length ls"
  by (simp add: tripleBlocks_def)

text \<open>
  Claim C2. A record with a quantity of zero (or less) gives no block under the split
  policy, and none under the exact policy: the single-barcode encoder filters such
  records out before it encodes, and the list of the triple-barcode component never
  holds one, whatever the user does, so that its encoder emits what it would emit behind
  the same filter. In the \<open>blocks\<close> arrays the record leaves no trace.
\<close>

theorem zero_quantity_blocks:
  assumes "quantity l \<le> 0"
  shows "splitBlocksOf l = [] \<and> exactBlocks [l] = [] \<and>
         splitBlocks (xs @ l # ys) = splitBlocks xs @ splitBlocks ys \<and>
         exactBlocks (xs @ l # ys) = exactBlocks xs @ exactBlocks ys \<and>
         (tripleReach st \<longrightarrow>
            l \<notin> set (labels st) \<and>
            tripleBlocks (labels st) =
              tripleBlocks (filter (\<lambda>label. quantity label > 0) (labels st)))"
proof -
  have "tripleReach st \<longrightarrow>
            l \<notin> set (labels st) \<and>
            tripleBlocks (labels st) =
              tripleBlocks (filter (\<lambda>label. quantity label > 0) (labels st))"
  proof
    assume "tripleReach st"
    from tripleReach_quantity [OF this]
    have q: "\<forall>x \<in> set (labels st). 1 \<le> quantity x" .
    with assms have "l \<notin> set (labels st)" by auto
    moreover from q have "filter (\<lambda>label. quantity label > 0) (labels st) = labels st"
      by (auto intro!: filter_True)
    ultimately show "l \<notin> set (labels st) \<and>
            tripleBlocks (labels st) =
              tripleBlocks (filter (\<lambda>label. quantity label > 0) (labels st))"
      by simp
  qed
  with assms show ?thesis
    by (simp add: splitBlocks_append splitBlocksOf_none exactBlocks_def)
qed

theorem zero_quantity_blocks_witness:
  "quantity (sampleLabel 0) \<le> 0 \<and> splitBlocksOf (sampleLabel 0) = [] \<and>
   exactBlocks [sampleLabel 0] = [] \<and>
   splitBlocks [sampleLabel 3, sampleLabel 0] = splitBlocks [sampleLabel 3] \<and>
   exactBlocks [sampleLabel 3, sampleLabel 0] = exactBlocks [sampleLabel 3] \<and>
   tripleReach processedState \<and> labels processedState = [sampleLabel 3] \<and>
   sampleLabel 0 \<notin> set (labels processedState)"
proof -
  have h: "quantity (sampleLabel 0) \<le> 0" by (simp add: sampleLabel_def)
  have e: "splitBlocks [] = []" "exactBlocks [] = []"
    by (simp_all add: splitBlocks_def exactBlocks_def)
  have r: "tripleReach processedState"
    unfolding processedState_def by (intro tripleReach.intros)
  have p: "labels processedState = [sampleLabel 3]" by code_simp
  from h r p zero_quantity_blocks [OF h, of "[sampleLabel 3]" "[]" processedState] e
  show ?thesis by simp
qed

end
